theory Spec2Isabelle
  imports Complex_Main "HOL-Library.Word"
begin

section \<open>Decoded values and the declarations of ui.hpp\<close>

text \<open>
  The controller of ui.cpp consumes decoded msgpack values. The value type lives in the
  msgpack header of the repository; ui.cpp inspects it through \<open>is\<close>, \<open>get\<close> and
  \<open>get_if\<close> only. Every kind that ui.cpp never asks for (null, float, binary, extension)
  is the constructor \<open>MOther\<close>.
\<close>

datatype msg_object =
    MOther
  | MBool bool
  | MInt int
  | MStr string
  | MArr "msg_object list"
  | MMap "(msg_object \<times> msg_object) list"

text \<open>
  \<open>msg::integer::as<T>\<close> is a narrowing conversion. Sizes are kept as natural numbers
  below \<open>2 ^ 64\<close>, colours as 32-bit words.
\<close>

definition as_size_t :: "int \<Rightarrow> nat" where
  "as_size_t i = nat (i mod 2 ^ 64)"

definition as_uint32 :: "int \<Rightarrow> 32 word" where
  "as_uint32 i = word_of_int i"

definition as_uint16 :: "int \<Rightarrow> 16 word" where
  "as_uint16 i = word_of_int i"

definition as_long :: "int \<Rightarrow> int" where
  "as_long i = sint (word_of_int i :: 64 word)"

text \<open>
  Modelled from the spec: \<open>rgb_color\<close> of ui.hpp, a colour that is either a concrete RGB
  value or carries the "use default" mark. \<open>rgb_color(rgb)\<close> is \<open>rgb_plain\<close>,
  \<open>rgb_color(rgb, default_tag)\<close> is \<open>rgb_default\<close>.
\<close>

record rgb_color =
  rgb_value :: "32 word"
  is_default :: bool

definition rgb_plain :: "32 word \<Rightarrow> rgb_color" where
  "rgb_plain v = \<lparr>rgb_value = v, is_default = False\<rparr>"

definition rgb_default :: "32 word \<Rightarrow> rgb_color" where
  "rgb_default v = \<lparr>rgb_value = v, is_default = True\<rparr>"

text \<open>
  Modelled from the spec: the flag set of \<open>cell_attributes\<close> (bold, italic, underline,
  undercurl, strikethrough, reverse, double-width marker). ui.cpp only sets single flags
  (\<open>flags |= f\<close>), tests single flags (\<open>flags & f\<close>) and clears all of them
  (\<open>flags = 0\<close>), so the bit field is a set of flags.
\<close>

datatype attr_flag = bold | italic | underline | undercurl | strikethrough | reverse | doublewidth

record cell_attributes =
  foreground :: rgb_color
  background :: rgb_color
  special :: rgb_color
  flags :: "attr_flag set"

datatype effect =
    Log_error string
  | Log_info string
  | Window_redraw
  | Window_title_set
  | Window_font_set
  | Window_options_set
  | Semaphore_signal

section \<open>Highlight table\<close>

type_synonym highlight_table = "cell_attributes list"

text \<open>\<open>hl_get_entry\<close>: the entry of the id, the entry 0 for an id outside the table.\<close>

definition hl_get_entry :: "highlight_table \<Rightarrow> nat \<Rightarrow> cell_attributes" where
  "hl_get_entry table hlid = (if hlid < length table then table ! hlid else table ! 0)"

text \<open>
  \<open>hl_new_entry\<close> returns the changed table and the position of the entry that the
  returned pointer refers to: \<open>table.back()\<close> is the last position.
  \<open>table.resize(hlid, default_attrs)\<close> makes the length \<open>hlid\<close>.
\<close>

definition hl_new_entry :: "highlight_table \<Rightarrow> nat \<Rightarrow> highlight_table \<times> nat" where
  "hl_new_entry table hlid =
     (let table_size = length table in
      if hlid = table_size then (table @ [table ! 0], table_size)
      else if hlid < table_size then (table[hlid := table ! 0], hlid)
      else (table @ replicate (hlid - table_size) (table ! 0), hlid - 1))"

definition set_rgb_color :: "rgb_color \<Rightarrow> msg_object \<Rightarrow> rgb_color \<times> effect list" where
  "set_rgb_color color object =
     (case object of
        MInt i \<Rightarrow> (rgb_plain (as_uint32 i), [])
      | _ \<Rightarrow> (color, [Log_error ''Redraw error: RGB type error'']))"

text \<open>One iteration of the loop of \<open>hl_attr_define\<close> over the pairs of the map.\<close>

definition hl_attr_pair ::
  "msg_object \<times> msg_object \<Rightarrow> cell_attributes \<times> effect list \<Rightarrow> cell_attributes \<times> effect list"
where
  "hl_attr_pair pair st =
     (let attrs = fst st; logged = snd st in
      case fst pair of
        MStr name \<Rightarrow>
          if name = ''foreground'' then
            (let r = set_rgb_color (foreground attrs) (snd pair)
             in (attrs\<lparr>foreground := fst r\<rparr>, logged @ snd r))
          else if name = ''background'' then
            (let r = set_rgb_color (background attrs) (snd pair)
             in (attrs\<lparr>background := fst r\<rparr>, logged @ snd r))
          else if name = ''underline'' then (attrs\<lparr>flags := insert underline (flags attrs)\<rparr>, logged)
          else if name = ''bold'' then (attrs\<lparr>flags := insert bold (flags attrs)\<rparr>, logged)
          else if name = ''italic'' then (attrs\<lparr>flags := insert italic (flags attrs)\<rparr>, logged)
          else if name = ''strikethrough'' then
            (attrs\<lparr>flags := insert strikethrough (flags attrs)\<rparr>, logged)
          else if name = ''undercurl'' then (attrs\<lparr>flags := insert undercurl (flags attrs)\<rparr>, logged)
          else if name = ''special'' then
            (let r = set_rgb_color (special attrs) (snd pair)
             in (attrs\<lparr>special := fst r\<rparr>, logged @ snd r))
          else if name = ''reverse'' then (attrs\<lparr>flags := insert reverse (flags attrs)\<rparr>, logged)
          else (attrs, logged @ [Log_info ''Redraw info: Ignoring highlight attribute''])
      | _ \<Rightarrow> (attrs, logged @ [Log_error ''Redraw error: Map key type error'']))"

fun hl_attr_pairs ::
  "(msg_object \<times> msg_object) list \<Rightarrow> cell_attributes \<times> effect list \<Rightarrow> cell_attributes \<times> effect list"
where
  "hl_attr_pairs [] st = st"
| "hl_attr_pairs (pair # rest) st = hl_attr_pairs rest (hl_attr_pair pair st)"

definition swap_if_reverse :: "cell_attributes \<Rightarrow> cell_attributes" where
  "swap_if_reverse attrs =
     (if reverse \<in> flags attrs
      then attrs\<lparr>background := foreground attrs, foreground := background attrs\<rparr>
      else attrs)"

text \<open>
  The table part of \<open>ui_controller::hl_attr_define\<close>: the entry that \<open>hl_new_entry\<close>
  points to is filled from the map and written in place.
\<close>

definition hl_define ::
  "highlight_table \<Rightarrow> nat \<Rightarrow> (msg_object \<times> msg_object) list \<Rightarrow> highlight_table \<times> effect list"
where
  "hl_define table hlid definition_map =
     (let r = hl_new_entry table hlid;
          table1 = fst r;
          pos = snd r;
          filled = hl_attr_pairs definition_map (table1 ! pos, [])
      in (table1[pos := swap_if_reverse (fst filled)], snd filled))"

section \<open>Cells, grids and the controller\<close>

text \<open>
  Modelled from the spec: the types \<open>cell\<close>, \<open>cursor_attributes\<close>, \<open>grid\<close>,
  \<open>mode_info\<close> and \<open>options\<close> of ui.hpp, with the fields that ui.cpp reads and writes.
  A cell is a text payload and an attribute record (the double-width mark is a flag of the
  record); a grid is its width, height, the row-major cell sequence, the cursor position,
  the cursor attributes and the version tick.
\<close>

record cell =
  cell_text :: string
  attrs :: cell_attributes

datatype cursor_shape = block | vertical | horizontal

record cursor_attributes =
  shape :: cursor_shape
  percentage :: "16 word"
  blinkwait :: "16 word"
  blinkon :: "16 word"
  blinkoff :: "16 word"
  blinks :: bool
  cursor_special :: rgb_color
  cursor_foreground :: rgb_color
  cursor_background :: rgb_color

record grid =
  grid_width :: nat
  grid_height :: nat
  cells :: "cell list"
  cursor_row :: nat
  cursor_col :: nat
  cursor_attrs :: cursor_attributes
  draw_tick :: "64 word"

record mode_info =
  mode_name :: string
  info_cursor_attrs :: cursor_attributes

record options =
  ext_cmdline :: bool
  ext_hlstate :: bool
  ext_linegrid :: bool
  ext_messages :: bool
  ext_multigrid :: bool
  ext_popupmenu :: bool
  ext_tabline :: bool
  ext_termcolors :: bool

text \<open>
  Modelled from the spec: the constructor \<open>nvim::cell(text, hlattr)\<close> of ui.hpp and the
  assignment of its result to a cell of the grid, \<open>*cell = nvim::cell(text, hlattr)\<close>.
  The second argument is a pointer, \<open>None\<close> is the null pointer. \<open>written_cell old t a\<close>
  is the cell that the assignment leaves where \<open>old\<close> was: with a highlight the cell is
  the text with that attribute record; without one it is "no highlight change", the cell
  gets the text and keeps the attributes it had.
\<close>

definition written_cell :: "cell \<Rightarrow> string \<Rightarrow> cell_attributes option \<Rightarrow> cell" where
  "written_cell old t a =
     (case a of
        None \<Rightarrow> old\<lparr>cell_text := t\<rparr>
      | Some hl \<Rightarrow> \<lparr>cell_text = t, attrs = hl\<rparr>)"

text \<open>
  What else ui.cpp takes from ui.hpp without showing it is a parameter of the model: the
  default-constructed cell and the value-initialised mode info.
\<close>

record ui_hpp =
  empty_cell :: cell
  empty_mode_info :: mode_info

text \<open>
  The two grid instances are the two slots of the store; \<open>writing\<close> and \<open>complete\<close>
  are pointers into it. \<open>flush_wait\<close> tells whether a semaphore is registered.
  \<open>effects\<close> records, in order, what the controller logs and which callbacks of the
  window it calls.
\<close>

datatype grid_ptr = Grid0 | Grid1

record ui_controller =
  hltable :: highlight_table
  grid0 :: grid
  grid1 :: grid
  writing :: grid_ptr
  complete :: grid_ptr
  flush_wait :: bool
  mode_info_table :: "mode_info list"
  current_mode :: nat
  option_title :: string
  option_guifont :: string
  opts :: options
  effects :: "effect list"

fun deref :: "grid_ptr \<Rightarrow> ui_controller \<Rightarrow> grid" where
  "deref Grid0 c = grid0 c"
| "deref Grid1 c = grid1 c"

fun assign :: "grid_ptr \<Rightarrow> grid \<Rightarrow> ui_controller \<Rightarrow> ui_controller" where
  "assign Grid0 g c = c\<lparr>grid0 := g\<rparr>"
| "assign Grid1 g c = c\<lparr>grid1 := g\<rparr>"

definition emit :: "effect list \<Rightarrow> ui_controller \<Rightarrow> ui_controller" where
  "emit es c = c\<lparr>effects := effects c @ es\<rparr>"

text \<open>
  A handler ends the process (\<open>std::abort\<close> in \<open>get_grid\<close>) or accesses memory outside
  the cell vector of a grid (undefined behaviour); both are values of the model.
\<close>

datatype fault = Abort | Out_of_bounds

definition get_grid :: "nat \<Rightarrow> ui_controller \<Rightarrow> fault + grid_ptr" where
  "get_grid index c = (if index \<noteq> 1 then Inl Abort else Inr (writing c))"

definition hl_attr_define ::
  "nat \<Rightarrow> (msg_object \<times> msg_object) list \<Rightarrow> ui_controller \<Rightarrow> ui_controller"
where
  "hl_attr_define hlid definition_map c =
     (let r = hl_define (hltable c) hlid definition_map
      in emit (snd r) (c\<lparr>hltable := fst r\<rparr>))"

section \<open>Grid events\<close>

text \<open>\<open>cells.resize(n)\<close>: truncate, or extend by default-constructed cells.\<close>

definition resize_cells :: "ui_hpp \<Rightarrow> nat \<Rightarrow> cell list \<Rightarrow> cell list" where
  "resize_cells H n cs = take n cs @ replicate (n - length cs) (empty_cell H)"

definition grid_resize ::
  "ui_hpp \<Rightarrow> nat \<Rightarrow> nat \<Rightarrow> nat \<Rightarrow> ui_controller \<Rightarrow> fault + ui_controller"
where
  "grid_resize H grid_id width height c =
     (case get_grid grid_id c of
        Inl f \<Rightarrow> Inl f
      | Inr p \<Rightarrow>
          Inr (assign p ((deref p c)\<lparr>grid_width := width, grid_height := height,
                 cells := resize_cells H ((width * height) mod 2 ^ 64) (cells (deref p c))\<rparr>) c))"

text \<open>
  \<open>cell_update\<close>: the text, the highlight pointer (\<open>None\<close> is the null pointer; the
  pointee is stored, the table does not change during a \<open>grid_line\<close>) and the repeat
  count. \<open>cell_update::set\<close> returns \<open>None\<close> where the source returns false.
\<close>

record cell_update =
  update_text :: string
  hlattr :: "cell_attributes option"
  repeat :: nat

definition cell_update_init :: cell_update where
  "cell_update_init = \<lparr>update_text = [], hlattr = None, repeat = 0\<rparr>"

definition cell_update_set ::
  "msg_object \<Rightarrow> highlight_table \<Rightarrow> cell_update \<Rightarrow> cell_update option"
where
  "cell_update_set object table u =
     (case object of
        MArr [MStr t] \<Rightarrow> Some (u\<lparr>update_text := t, repeat := 1\<rparr>)
      | MArr [MStr t, MInt h] \<Rightarrow>
          Some (u\<lparr>update_text := t, hlattr := Some (hl_get_entry table (as_size_t h)),
                  repeat := 1\<rparr>)
      | MArr [MStr t, MInt h, MInt r] \<Rightarrow>
          Some (u\<lparr>update_text := t, hlattr := Some (hl_get_entry table (as_size_t h)),
                  repeat := as_size_t r\<rparr>)
      | _ \<Rightarrow> None)"

text \<open>
  The state of the loop of \<open>grid_line\<close>: the cell vector, the position \<open>cell\<close> points
  to, the counter \<open>remaining\<close> (a \<open>size_t\<close>: subtracting from 0 wraps) and the update.
\<close>

record line_state =
  ls_cells :: "cell list"
  ls_cell :: nat
  ls_remaining :: nat
  ls_update :: cell_update

datatype line_result = Done "cell list" "effect list" | Fault

text \<open>\<open>*cell = c\<close>, then \<open>cell[i] = *cell\<close> for \<open>i\<close> from 1 below \<open>repeat\<close>.\<close>

definition write_run :: "cell list \<Rightarrow> nat \<Rightarrow> cell \<Rightarrow> nat \<Rightarrow> cell list" where
  "write_run cs p c n = fold (\<lambda>i acc. acc[p + i := c]) [1..<n] (cs[p := c])"

text \<open>
  One iteration of the loop: \<open>Inl\<close> is the state for the next iteration, \<open>Inr\<close> a
  \<open>return\<close> of the handler.
\<close>

definition grid_line_step ::
  "highlight_table \<Rightarrow> nat \<Rightarrow> msg_object \<Rightarrow> line_state \<Rightarrow> line_state + line_result"
where
  "grid_line_step table rowbegin object st =
     (case cell_update_set object table (ls_update st) of
        None \<Rightarrow> Inr (Done (ls_cells st) [Log_error ''Redraw error: Cell update type error''])
      | Some u \<Rightarrow>
          if repeat u > ls_remaining st then
            Inr (Done (ls_cells st) [Log_error ''Redraw error: Row overflow''])
          else if update_text u = [] then
            (if ls_cell st = rowbegin then Inr (Done (ls_cells st) [])
             else if length (ls_cells st) \<le> ls_cell st then Inr Fault
             else
               (let p = ls_cell st;
                    cs1 = (ls_cells st)[p := (ls_cells st ! p)\<lparr>attrs := attrs (ls_cells st ! (p - 1))\<rparr>];
                    left = cs1 ! (p - 1);
                    cs2 = cs1[p - 1 :=
                            left\<lparr>attrs := (attrs left)\<lparr>flags := insert doublewidth (flags (attrs left))\<rparr>\<rparr>]
                in Inl \<lparr>ls_cells = cs2, ls_cell = p + 1,
                        ls_remaining = (ls_remaining st + (2 ^ 64 - 1)) mod 2 ^ 64,
                        ls_update = u\<rparr>))
          else
            (if length (ls_cells st) < ls_cell st + max 1 (repeat u) then Inr Fault
             else
               Inl \<lparr>ls_cells = write_run (ls_cells st) (ls_cell st)
                                  (written_cell (ls_cells st ! ls_cell st) (update_text u)
                                     (hlattr u))
                                  (repeat u),
                    ls_cell = ls_cell st + repeat u,
                    ls_remaining = ls_remaining st - repeat u,
                    ls_update = u\<rparr>))"

fun grid_line_loop ::
  "highlight_table \<Rightarrow> nat \<Rightarrow> msg_object list \<Rightarrow> line_state \<Rightarrow> line_result"
where
  "grid_line_loop table rowbegin [] st = Done (ls_cells st) []"
| "grid_line_loop table rowbegin (object # rest) st =
     (case grid_line_step table rowbegin object st of
        Inl st' \<Rightarrow> grid_line_loop table rowbegin rest st'
      | Inr r \<Rightarrow> r)"

text \<open>The state in which \<open>grid_line\<close> enters its loop; \<open>grid->get(row, 0)\<close> is row-major.\<close>

definition line_start :: "grid \<Rightarrow> nat \<Rightarrow> nat \<Rightarrow> line_state" where
  "line_start g row col =
     \<lparr>ls_cells = cells g, ls_cell = row * grid_width g + col,
      ls_remaining = grid_width g - col, ls_update = cell_update_init\<rparr>"

definition grid_line ::
  "nat \<Rightarrow> nat \<Rightarrow> nat \<Rightarrow> msg_object list \<Rightarrow> ui_controller \<Rightarrow> fault + ui_controller"
where
  "grid_line grid_id row col cell_updates c =
     (case get_grid grid_id c of
        Inl f \<Rightarrow> Inl f
      | Inr p \<Rightarrow>
          (let g = deref p c in
           if row \<ge> grid_height g \<or> col \<ge> grid_width g then
             Inr (emit [Log_error ''Redraw error: Grid index out of bounds''] c)
           else
             (case grid_line_loop (hltable c) (row * grid_width g) cell_updates
                     (line_start g row col) of
                Fault \<Rightarrow> Inl Out_of_bounds
              | Done cs logged \<Rightarrow> Inr (emit logged (assign p (g\<lparr>cells := cs\<rparr>) c)))))"

definition grid_clear :: "ui_hpp \<Rightarrow> nat \<Rightarrow> ui_controller \<Rightarrow> fault + ui_controller" where
  "grid_clear H grid_id c =
     (case get_grid grid_id c of
        Inl f \<Rightarrow> Inl f
      | Inr p \<Rightarrow>
          (let g = deref p c;
               empty = (empty_cell H)\<lparr>attrs :=
                          (attrs (empty_cell H))\<lparr>background := background (hltable c ! 0)\<rparr>\<rparr>
           in Inr (assign p (g\<lparr>cells := map (\<lambda>_. empty) (cells g)\<rparr>) c)))"

definition grid_cursor_goto ::
  "nat \<Rightarrow> nat \<Rightarrow> nat \<Rightarrow> ui_controller \<Rightarrow> fault + ui_controller"
where
  "grid_cursor_goto grid_id row col c =
     (case get_grid grid_id c of
        Inl f \<Rightarrow> Inl f
      | Inr p \<Rightarrow>
          (let g = deref p c in
           if row \<ge> grid_height g \<or> col \<ge> grid_width g then
             Inr (emit [Log_error ''Redraw error: Cursor out of bounds''] c)
           else Inr (assign p (g\<lparr>cursor_row := row, cursor_col := col\<rparr>) c)))"

text \<open>
  \<open>grid_scroll\<close>: \<open>dest\<close> and \<open>src\<close> are positions in the cell vector, moved by the
  signed \<open>row_width\<close>; \<open>memcpy\<close> copies \<open>width\<close> cells.
\<close>

definition memcpy_cells :: "cell list \<Rightarrow> nat \<Rightarrow> nat \<Rightarrow> nat \<Rightarrow> cell list" where
  "memcpy_cells cs dest src n = take dest cs @ take n (drop src cs) @ drop (dest + n) cs"

fun scroll_rows :: "nat \<Rightarrow> cell list \<Rightarrow> int \<Rightarrow> int \<Rightarrow> int \<Rightarrow> nat \<Rightarrow> cell list option" where
  "scroll_rows 0 cs dest src row_width width = Some cs"
| "scroll_rows (Suc n) cs dest src row_width width =
     (if dest < 0 \<or> src < 0 \<or> int (length cs) < dest + int width \<or> int (length cs) < src + int width
      then None
      else scroll_rows n (memcpy_cells cs (nat dest) (nat src) width)
             (dest + row_width) (src + row_width) row_width width)"

definition grid_scroll ::
  "nat \<Rightarrow> nat \<Rightarrow> nat \<Rightarrow> nat \<Rightarrow> nat \<Rightarrow> int \<Rightarrow> ui_controller \<Rightarrow> fault + ui_controller"
where
  "grid_scroll grid_id top_row bottom_row left_col right_col rows c =
     (if bottom_row < top_row \<or> right_col < left_col then
        Inr (emit [Log_error ''Redraw error: Invalid args''] c)
      else
        (case get_grid grid_id c of
           Inl f \<Rightarrow> Inl f
         | Inr p \<Rightarrow>
             (let g = deref p c; height = bottom_row - top_row; width = right_col - left_col in
              if bottom_row > grid_height g \<or> right_col > grid_width g then
                Inr (emit [Log_error ''Redraw error: Grid index out of bounds''] c)
              else
                (let dest = (if rows \<ge> 0 then int (top_row * grid_width g + left_col)
                             else (int bottom_row - 1) * int (grid_width g) + int left_col);
                     row_width = (if rows \<ge> 0 then int (grid_width g) else - int (grid_width g));
                     count = (if rows \<ge> 0 then int height - rows else int height + rows);
                     src = dest + int (grid_width g) * rows
                 in case scroll_rows (nat count) (cells g) dest src row_width width of
                      None \<Rightarrow> Inl Out_of_bounds
                    | Some cs \<Rightarrow> Inr (assign p (g\<lparr>cells := cs\<rparr>) c)))))"

section \<open>Publishing a frame\<close>

definition flush :: "ui_controller \<Rightarrow> ui_controller" where
  "flush c =
     (let completed = writing c;
          c1 = assign completed
                 ((deref completed c)\<lparr>draw_tick := draw_tick (deref completed c) + 1\<rparr>) c;
          c2 = c1\<lparr>writing := complete c1, complete := completed\<rparr>;
          c3 = assign (writing c2) (deref completed c2) c2
      in if flush_wait c3 then emit [Semaphore_signal] (c3\<lparr>flush_wait := False\<rparr>)
         else emit [Window_redraw] c3)"

section \<open>Default colours\<close>

definition adjust_defaults :: "cell_attributes \<Rightarrow> cell_attributes \<Rightarrow> cell_attributes" where
  "adjust_defaults def a =
     (let reversed = (reverse \<in> flags a);
          a1 = (if is_default (foreground a)
                then a\<lparr>foreground := (if reversed then background def else foreground def)\<rparr>
                else a);
          a2 = (if is_default (background a1)
                then a1\<lparr>background := (if reversed then foreground def else background def)\<rparr>
                else a1)
      in if is_default (special a2) then a2\<lparr>special := special def\<rparr> else a2)"

text \<open>
  In the loop over the highlight table both arguments of \<open>adjust_defaults\<close> are
  references into the table: \<open>def\<close> is entry 0 and \<open>attrs\<close> is entry \<open>i\<close>, and for
  \<open>i = 0\<close> they are the same object. Every read goes to the table as it is at that
  moment.
\<close>

definition adjust_defaults_in :: "highlight_table \<Rightarrow> nat \<Rightarrow> highlight_table" where
  "adjust_defaults_in t i =
     (let reversed = (reverse \<in> flags (t ! i));
          t1 = (if is_default (foreground (t ! i))
                then t[i := (t ! i)\<lparr>foreground :=
                        (if reversed then background (t ! 0) else foreground (t ! 0))\<rparr>]
                else t);
          t2 = (if is_default (background (t1 ! i))
                then t1[i := (t1 ! i)\<lparr>background :=
                        (if reversed then foreground (t1 ! 0) else background (t1 ! 0))\<rparr>]
                else t1)
      in if is_default (special (t2 ! i)) then t2[i := (t2 ! i)\<lparr>special := special (t2 ! 0)\<rparr>]
         else t2)"

definition default_colors_set ::
  "32 word \<Rightarrow> 32 word \<Rightarrow> 32 word \<Rightarrow> ui_controller \<Rightarrow> ui_controller"
where
  "default_colors_set fg bg sp c =
     (let t0 = (hltable c)[0 := (hltable c ! 0)\<lparr>foreground := rgb_default fg,
                   background := rgb_default bg, special := rgb_default sp, flags := {}\<rparr>];
          t1 = fold (\<lambda>i t. adjust_defaults_in t i) [0..<length t0] t0;
          g = deref (writing c) c
      in assign (writing c)
           (g\<lparr>cells := map (\<lambda>cl. cl\<lparr>attrs := adjust_defaults (t1 ! 0) (attrs cl)\<rparr>) (cells g)\<rparr>)
           (c\<lparr>hltable := t1\<rparr>))"

section \<open>Modes and cursor styles\<close>

definition to_cursor_shape :: "msg_object \<Rightarrow> cursor_shape \<times> effect list" where
  "to_cursor_shape object =
     (case object of
        MStr name \<Rightarrow>
          if name = ''block'' then (block, [])
          else if name = ''vertical'' then (vertical, [])
          else if name = ''horizontal'' then (horizontal, [])
          else (block, [Log_error ''Redraw error: Unknown cursor shape''])
      | _ \<Rightarrow> (block, [Log_error ''Redraw error: Unknown cursor shape'']))"

definition set_color_attrs ::
  "cursor_attributes \<Rightarrow> highlight_table \<Rightarrow> msg_object \<Rightarrow> cursor_attributes \<times> effect list"
where
  "set_color_attrs ca table object =
     (case object of
        MInt i \<Rightarrow>
          (let hlid = as_size_t i; hl_attrs = hl_get_entry table hlid in
           if hlid \<noteq> 0 then
             (ca\<lparr>cursor_special := special hl_attrs,
                cursor_foreground := foreground hl_attrs,
                cursor_background := background hl_attrs\<rparr>, [])
           else
             (ca\<lparr>cursor_special := special hl_attrs,
                cursor_foreground := background hl_attrs,
                cursor_background := foreground hl_attrs\<rparr>, []))
      | _ \<Rightarrow> (ca, [Log_error ''Redraw error: Highlight id type error'']))"

text \<open>\<open>to<T>\<close>: the value when the type matches, the value-initialised \<open>T\<close> otherwise.\<close>

definition to_uint16 :: "msg_object \<Rightarrow> 16 word" where
  "to_uint16 object = (case object of MInt i \<Rightarrow> as_uint16 i | _ \<Rightarrow> 0)"

definition to_string :: "msg_object \<Rightarrow> string" where
  "to_string object = (case object of MStr s \<Rightarrow> s | _ \<Rightarrow> [])"

definition mode_info_pair ::
  "highlight_table \<Rightarrow> msg_object \<times> msg_object \<Rightarrow> mode_info \<times> effect list \<Rightarrow>
   mode_info \<times> effect list"
where
  "mode_info_pair hl_table pair st =
     (let info = fst st; logged = snd st; ca = info_cursor_attrs info in
      case fst pair of
        MStr name \<Rightarrow>
          if name = ''cursor_shape'' then
            (let r = to_cursor_shape (snd pair)
             in (info\<lparr>info_cursor_attrs := ca\<lparr>shape := fst r\<rparr>\<rparr>, logged @ snd r))
          else if name = ''cell_percentage'' then
            (info\<lparr>info_cursor_attrs := ca\<lparr>percentage := to_uint16 (snd pair)\<rparr>\<rparr>, logged)
          else if name = ''blinkwait'' then
            (info\<lparr>info_cursor_attrs := ca\<lparr>blinkwait := to_uint16 (snd pair)\<rparr>\<rparr>, logged)
          else if name = ''blinkon'' then
            (info\<lparr>info_cursor_attrs := ca\<lparr>blinkon := to_uint16 (snd pair)\<rparr>\<rparr>, logged)
          else if name = ''blinkoff'' then
            (info\<lparr>info_cursor_attrs := ca\<lparr>blinkoff := to_uint16 (snd pair)\<rparr>\<rparr>, logged)
          else if name = ''name'' then (info\<lparr>mode_name := to_string (snd pair)\<rparr>, logged)
          else if name = ''attr_id'' then
            (let r = set_color_attrs ca hl_table (snd pair)
             in (info\<lparr>info_cursor_attrs := fst r\<rparr>, logged @ snd r))
          else (info, logged)
      | _ \<Rightarrow> (info, logged @ [Log_error ''Redraw error: Map key type error'']))"

definition to_mode_info ::
  "ui_hpp \<Rightarrow> highlight_table \<Rightarrow> (msg_object \<times> msg_object) list \<Rightarrow> mode_info \<times> effect list"
where
  "to_mode_info H hl_table m =
     (let r = fold (mode_info_pair hl_table) m (empty_mode_info H, []);
          info = fst r;
          ca = info_cursor_attrs info
      in if blinkwait ca \<noteq> 0 \<and> blinkoff ca \<noteq> 0 \<and> blinkon ca \<noteq> 0
         then (info\<lparr>info_cursor_attrs := ca\<lparr>blinks := True\<rparr>\<rparr>, snd r)
         else r)"

text \<open>One iteration of the loop of \<open>mode_info_set\<close> over the property maps.\<close>

definition mode_info_push :: "ui_hpp \<Rightarrow> msg_object \<Rightarrow> ui_controller \<Rightarrow> ui_controller" where
  "mode_info_push H object c =
     (case object of
        MMap m \<Rightarrow>
          (let r = to_mode_info H (hltable c) m
           in emit (snd r) (c\<lparr>mode_info_table := mode_info_table c @ [fst r]\<rparr>))
      | _ \<Rightarrow> emit [Log_error ''Redraw error: Cursor property map type error''] c)"

definition mode_info_set :: "ui_hpp \<Rightarrow> bool \<Rightarrow> msg_object list \<Rightarrow> ui_controller \<Rightarrow> ui_controller"
where
  "mode_info_set H enabled property_maps c =
     fold (mode_info_push H) property_maps (c\<lparr>mode_info_table := [], current_mode := 0\<rparr>)"

definition mode_change :: "string \<Rightarrow> nat \<Rightarrow> ui_controller \<Rightarrow> ui_controller" where
  "mode_change name index c =
     (if index \<ge> length (mode_info_table c) then
        emit [Log_error ''Redraw error: Mode index out of bounds''] c
      else
        assign (writing c)
          ((deref (writing c) c)\<lparr>cursor_attrs := info_cursor_attrs (mode_info_table c ! index)\<rparr>)
          c)"

section \<open>Title and options\<close>

definition set_title :: "string \<Rightarrow> ui_controller \<Rightarrow> ui_controller" where
  "set_title new_title c = emit [Window_title_set] (c\<lparr>option_title := new_title\<rparr>)"

definition set_font_option :: "msg_object \<Rightarrow> ui_controller \<Rightarrow> ui_controller" where
  "set_font_option v c =
     (case v of
        MStr s \<Rightarrow> emit [Window_font_set] (c\<lparr>option_guifont := s\<rparr>)
      | _ \<Rightarrow> emit [Log_info ''Redraw info: Option type error''] c)"

text \<open>
  \<open>set_ext_option\<close> writes through a reference to one flag of \<open>opts\<close>; the flag is given
  by the function that stores it.
\<close>

definition set_ext_option ::
  "(bool \<Rightarrow> options \<Rightarrow> options) \<Rightarrow> msg_object \<Rightarrow> ui_controller \<Rightarrow> ui_controller"
where
  "set_ext_option put v c =
     (case v of
        MBool b \<Rightarrow> c\<lparr>opts := put b (opts c)\<rparr>
      | _ \<Rightarrow> emit [Log_info ''Redraw info: Option type error''] c)"

definition set_option :: "string \<Rightarrow> msg_object \<Rightarrow> ui_controller \<Rightarrow> ui_controller" where
  "set_option name v c =
     (if name = ''guifont'' then set_font_option v c
      else if name = ''ext_cmdline'' then set_ext_option (\<lambda>b x. x\<lparr>ext_cmdline := b\<rparr>) v c
      else if name = ''ext_hlstate'' then set_ext_option (\<lambda>b x. x\<lparr>ext_hlstate := b\<rparr>) v c
      else if name = ''ext_linegrid'' then set_ext_option (\<lambda>b x. x\<lparr>ext_linegrid := b\<rparr>) v c
      else if name = ''ext_messages'' then set_ext_option (\<lambda>b x. x\<lparr>ext_messages := b\<rparr>) v c
      else if name = ''ext_multigrid'' then set_ext_option (\<lambda>b x. x\<lparr>ext_multigrid := b\<rparr>) v c
      else if name = ''ext_popupmenu'' then set_ext_option (\<lambda>b x. x\<lparr>ext_popupmenu := b\<rparr>) v c
      else if name = ''ext_tabline'' then set_ext_option (\<lambda>b x. x\<lparr>ext_tabline := b\<rparr>) v c
      else if name = ''ext_termcolors'' then set_ext_option (\<lambda>b x. x\<lparr>ext_termcolors := b\<rparr>) v c
      else c)"

section \<open>Dispatch of redraw events\<close>

text \<open>
  The parameter types of the handlers, and \<open>is<T>\<close>: every integral type other than
  \<open>bool\<close> accepts an integer, \<open>msg::object\<close> accepts everything.
\<close>

datatype param_type = T_size_t | T_long | T_uint32 | T_bool | T_string | T_array | T_map | T_object

fun is_type :: "param_type \<Rightarrow> msg_object \<Rightarrow> bool" where
  "is_type T_object object = True"
| "is_type T_bool object = (case object of MBool _ \<Rightarrow> True | _ \<Rightarrow> False)"
| "is_type T_string object = (case object of MStr _ \<Rightarrow> True | _ \<Rightarrow> False)"
| "is_type T_array object = (case object of MArr _ \<Rightarrow> True | _ \<Rightarrow> False)"
| "is_type T_map object = (case object of MMap _ \<Rightarrow> True | _ \<Rightarrow> False)"
| "is_type T_size_t object = (case object of MInt _ \<Rightarrow> True | _ \<Rightarrow> False)"
| "is_type T_long object = (case object of MInt _ \<Rightarrow> True | _ \<Rightarrow> False)"
| "is_type T_uint32 object = (case object of MInt _ \<Rightarrow> True | _ \<Rightarrow> False)"

datatype handler =
    H_grid_line | H_grid_resize | H_grid_scroll | H_flush | H_grid_clear | H_hl_attr_define
  | H_default_colors_set | H_mode_info_set | H_mode_change | H_grid_cursor_goto | H_set_title
  | H_set_option

fun signature_of :: "handler \<Rightarrow> param_type list" where
  "signature_of H_grid_line = [T_size_t, T_size_t, T_size_t, T_array]"
| "signature_of H_grid_resize = [T_size_t, T_size_t, T_size_t]"
| "signature_of H_grid_scroll = [T_size_t, T_size_t, T_size_t, T_size_t, T_size_t, T_long]"
| "signature_of H_flush = []"
| "signature_of H_grid_clear = [T_size_t]"
| "signature_of H_hl_attr_define = [T_size_t, T_map]"
| "signature_of H_default_colors_set = [T_uint32, T_uint32, T_uint32]"
| "signature_of H_mode_info_set = [T_bool, T_array]"
| "signature_of H_mode_change = [T_string, T_size_t]"
| "signature_of H_grid_cursor_goto = [T_size_t, T_size_t, T_size_t]"
| "signature_of H_set_title = [T_string]"
| "signature_of H_set_option = [T_string, T_object]"

text \<open>
  \<open>call\<close>: the member function on \<open>get<Ts>(array[Indexes])...\<close>, the leading elements
  of the array. The default cases are never reached from \<open>apply_one\<close>, which checks the
  types first; reading a missing element is an access out of bounds.
\<close>

definition call :: "ui_hpp \<Rightarrow> handler \<Rightarrow> msg_object list \<Rightarrow> ui_controller \<Rightarrow> fault + ui_controller" where
  "call H h args c =
     (case h of
        H_grid_line \<Rightarrow>
          (case args of
             MInt g # MInt r # MInt k # MArr cs # _ \<Rightarrow>
               grid_line (as_size_t g) (as_size_t r) (as_size_t k) cs c
           | _ \<Rightarrow> Inl Out_of_bounds)
      | H_grid_resize \<Rightarrow>
          (case args of
             MInt g # MInt w # MInt ht # _ \<Rightarrow>
               grid_resize H (as_size_t g) (as_size_t w) (as_size_t ht) c
           | _ \<Rightarrow> Inl Out_of_bounds)
      | H_grid_scroll \<Rightarrow>
          (case args of
             MInt g # MInt t # MInt b # MInt l # MInt r # MInt n # _ \<Rightarrow>
               grid_scroll (as_size_t g) (as_size_t t) (as_size_t b) (as_size_t l) (as_size_t r)
                 (as_long n) c
           | _ \<Rightarrow> Inl Out_of_bounds)
      | H_flush \<Rightarrow> Inr (flush c)
      | H_grid_clear \<Rightarrow>
          (case args of
             MInt g # _ \<Rightarrow> grid_clear H (as_size_t g) c
           | _ \<Rightarrow> Inl Out_of_bounds)
      | H_hl_attr_define \<Rightarrow>
          (case args of
             MInt i # MMap m # _ \<Rightarrow> Inr (hl_attr_define (as_size_t i) m c)
           | _ \<Rightarrow> Inl Out_of_bounds)
      | H_default_colors_set \<Rightarrow>
          (case args of
             MInt fg # MInt bg # MInt sp # _ \<Rightarrow>
               Inr (default_colors_set (as_uint32 fg) (as_uint32 bg) (as_uint32 sp) c)
           | _ \<Rightarrow> Inl Out_of_bounds)
      | H_mode_info_set \<Rightarrow>
          (case args of
             MBool e # MArr ms # _ \<Rightarrow> Inr (mode_info_set H e ms c)
           | _ \<Rightarrow> Inl Out_of_bounds)
      | H_mode_change \<Rightarrow>
          (case args of
             MStr n # MInt i # _ \<Rightarrow> Inr (mode_change n (as_size_t i) c)
           | _ \<Rightarrow> Inl Out_of_bounds)
      | H_grid_cursor_goto \<Rightarrow>
          (case args of
             MInt g # MInt r # MInt k # _ \<Rightarrow>
               grid_cursor_goto (as_size_t g) (as_size_t r) (as_size_t k) c
           | _ \<Rightarrow> Inl Out_of_bounds)
      | H_set_title \<Rightarrow>
          (case args of
             MStr t # _ \<Rightarrow> Inr (set_title t c)
           | _ \<Rightarrow> Inl Out_of_bounds)
      | H_set_option \<Rightarrow>
          (case args of
             MStr n # v # _ \<Rightarrow> Inr (set_option n v c)
           | _ \<Rightarrow> Inl Out_of_bounds))"

text \<open>The fold \<open>(is<Ts>(args[index++]) && ...)\<close> over the parameter types.\<close>

fun is_all :: "param_type list \<Rightarrow> msg_object list \<Rightarrow> bool" where
  "is_all [] args = True"
| "is_all (t # ts) [] = False"
| "is_all (t # ts) (a # args) = (is_type t a \<and> is_all ts args)"

definition accepts :: "handler \<Rightarrow> msg_object \<Rightarrow> bool" where
  "accepts h object =
     (case object of
        MArr args \<Rightarrow> length (signature_of h) \<le> length args \<and> is_all (signature_of h) args
      | _ \<Rightarrow> False)"

definition apply_one ::
  "ui_hpp \<Rightarrow> handler \<Rightarrow> string \<Rightarrow> msg_object \<Rightarrow> ui_controller \<Rightarrow> fault + ui_controller"
where
  "apply_one H h name object c =
     (if accepts h object
      then (case object of MArr args \<Rightarrow> call H h args c | _ \<Rightarrow> Inl Out_of_bounds)
      else Inr (emit [Log_error ''Redraw error: Argument type error''] c))"

fun apply_tuples ::
  "ui_hpp \<Rightarrow> handler \<Rightarrow> string \<Rightarrow> msg_object list \<Rightarrow> ui_controller \<Rightarrow> fault + ui_controller"
where
  "apply_tuples H h name [] c = Inr c"
| "apply_tuples H h name (tuple # rest) c =
     (case apply_one H h name tuple c of
        Inl f \<Rightarrow> Inl f
      | Inr c' \<Rightarrow> apply_tuples H h name rest c')"

definition redraw_event :: "ui_hpp \<Rightarrow> msg_object \<Rightarrow> ui_controller \<Rightarrow> fault + ui_controller" where
  "redraw_event H event_object c =
     (case event_object of
        MArr (MStr name # args) \<Rightarrow>
          if name = ''grid_line'' then apply_tuples H H_grid_line name args c
          else if name = ''grid_resize'' then apply_tuples H H_grid_resize name args c
          else if name = ''grid_scroll'' then apply_tuples H H_grid_scroll name args c
          else if name = ''flush'' then apply_tuples H H_flush name args c
          else if name = ''grid_clear'' then apply_tuples H H_grid_clear name args c
          else if name = ''hl_attr_define'' then apply_tuples H H_hl_attr_define name args c
          else if name = ''default_colors_set'' then
            apply_tuples H H_default_colors_set name args c
          else if name = ''mode_info_set'' then apply_tuples H H_mode_info_set name args c
          else if name = ''mode_change'' then apply_tuples H H_mode_change name args c
          else if name = ''grid_cursor_goto'' then apply_tuples H H_grid_cursor_goto name args c
          else if name = ''set_title'' then apply_tuples H H_set_title name args c
          else if name = ''option_set'' then
            (case apply_tuples H H_set_option name args c of
               Inl f \<Rightarrow> Inl f
             | Inr c' \<Rightarrow>
                 if opts c' \<noteq> opts c then Inr (emit [Window_options_set] c') else Inr c')
          else if name = ''mouse_on'' \<or> name = ''mouse_off'' \<or> name = ''set_icon''
                  \<or> name = ''hl_group_set'' then Inr c
          else Inr (emit [Log_info ''Redraw info: Unhandled event''] c)
      | _ \<Rightarrow> Inr (emit [Log_error ''Redraw error: Event type error''] c))"

fun redraw :: "ui_hpp \<Rightarrow> msg_object list \<Rightarrow> ui_controller \<Rightarrow> fault + ui_controller" where
  "redraw H [] c = Inr c"
| "redraw H (event # events) c =
     (case redraw_event H event c of
        Inl f \<Rightarrow> Inl f
      | Inr c' \<Rightarrow> redraw H events c')"

section \<open>Font list\<close>

text \<open>
  \<open>std::string_view::find\<close> and \<open>find_first_not_of\<close> return the first position from
  \<open>pos\<close> on that holds (does not hold) the character; \<open>npos\<close> is \<open>None\<close>.
\<close>

fun first_index :: "('a \<Rightarrow> bool) \<Rightarrow> 'a list \<Rightarrow> nat option" where
  "first_index P [] = None"
| "first_index P (x # xs) = (if P x then Some 0 else map_option Suc (first_index P xs))"

definition sv_find :: "string \<Rightarrow> char \<Rightarrow> nat \<Rightarrow> nat option" where
  "sv_find s ch pos = map_option (\<lambda>i. pos + i) (first_index (\<lambda>x. x = ch) (drop pos s))"

definition sv_find_first_not_of :: "string \<Rightarrow> char \<Rightarrow> nat \<Rightarrow> nat option" where
  "sv_find_first_not_of s ch pos =
     map_option (\<lambda>i. pos + i) (first_index (\<lambda>x. x \<noteq> ch) (drop pos s))"

definition substr :: "string \<Rightarrow> nat \<Rightarrow> nat \<Rightarrow> string" where
  "substr s pos n = take n (drop pos s)"

text \<open>
  Modelled from the spec: \<open>font\<close> of ui.hpp, a family name and a point size. The size is
  a \<open>double\<close> in the source, here the real number that the double denotes.
\<close>

record font =
  font_name :: string
  font_size :: real

definition isdigit :: "char \<Rightarrow> bool" where
  "isdigit ch = ((of_char CHR ''0'' :: nat) \<le> of_char ch \<and> (of_char ch :: nat) \<le> of_char CHR ''9'')"

definition digit_value :: "char \<Rightarrow> nat" where
  "digit_value ch = of_char ch - of_char CHR ''0''"

text \<open>
  The loop of \<open>make_font\<close> walks back from \<open>index\<close> over the trailing digits; \<open>size\<close>
  and \<open>multiply\<close> are \<open>size_t\<close>, 64-bit words that wrap. The result is the final
  \<open>index\<close> and \<open>size\<close>.
\<close>

fun font_size_loop :: "string \<Rightarrow> nat \<Rightarrow> 64 word \<Rightarrow> 64 word \<Rightarrow> nat \<times> 64 word" where
  "font_size_loop fontstr 0 multiply sz = (0, sz)"
| "font_size_loop fontstr (Suc index) multiply sz =
     (if isdigit (fontstr ! index)
      then font_size_loop fontstr index (multiply * 10)
             (sz + multiply * of_nat (digit_value (fontstr ! index)))
      else (index, sz))"

text \<open>
  \<open>double(size)\<close> converts a \<open>size_t\<close> to a double, which has 53 significant bits: a
  number of more bits loses its low bits and is rounded to the nearest double, a tie to
  the one with the even significand (the default rounding mode). \<open>excess_bits n\<close> is the
  number of bits of \<open>n\<close> beyond 53.
\<close>

function excess_bits :: "nat \<Rightarrow> nat" where
  "excess_bits n = (if n < 2 ^ 53 then 0 else Suc (excess_bits (n div 2)))"
  by pat_completeness auto
termination
  by (relation "measure (\<lambda>n. n)") auto

declare excess_bits.simps [simp del]

definition double_of_size_t :: "nat \<Rightarrow> real" where
  "double_of_size_t n =
     (let e = excess_bits n; q = n div 2 ^ e; r = n mod 2 ^ e in
      real ((if 2 ^ e < 2 * r \<or> (2 * r = 2 ^ e \<and> odd q) then q + 1 else q) * 2 ^ e))"

definition make_font :: "string \<Rightarrow> real \<Rightarrow> font" where
  "make_font fontstr default_size =
     (let r = font_size_loop fontstr (length fontstr) 1 0; index = fst r; sz = snd r in
      if sz \<noteq> 0 \<and> index \<noteq> 0 \<and> fontstr ! index = CHR ''h'' \<and> fontstr ! (index - 1) = CHR '':''
      then \<lparr>font_name = substr fontstr 0 (index - 1), font_size = double_of_size_t (unat sz)\<rparr>
      else \<lparr>font_name = fontstr, font_size = default_size\<rparr>)"

lemma first_index_bound: "first_index P xs = Some i \<Longrightarrow> i < length xs"
  by (induction xs arbitrary: i) (auto split: if_splits)

lemma sv_find_bounds: "sv_find s ch pos = Some p \<Longrightarrow> pos \<le> p \<and> p < length s"
  by (auto simp: sv_find_def dest!: first_index_bound)

function find_unescaped_comma :: "string \<Rightarrow> nat \<Rightarrow> nat option" where
  "find_unescaped_comma s pos =
     (case sv_find s CHR '','' pos of
        None \<Rightarrow> None
      | Some p \<Rightarrow>
          if p \<noteq> 0 \<and> s ! (p - 1) \<noteq> CHR 0x5C then Some p
          else find_unescaped_comma s (p + 1))"
  by pat_completeness auto
termination
  by (relation "measure (\<lambda>(s, pos). length s - pos)") (auto dest!: sv_find_bounds)

declare find_unescaped_comma.simps [simp del]

lemma find_unescaped_comma_bounds:
  "find_unescaped_comma s pos = Some p \<Longrightarrow> pos \<le> p \<and> p < length s"
proof (induction s pos rule: find_unescaped_comma.induct)
  case (1 s pos)
  show ?case
  proof (cases "sv_find s CHR '','' pos")
    case None
    with "1.prems" show ?thesis by (simp add: find_unescaped_comma.simps [of s pos])
  next
    case (Some q)
    note b = sv_find_bounds [OF Some]
    show ?thesis
    proof (cases "q \<noteq> 0 \<and> s ! (q - 1) \<noteq> CHR 0x5C")
      case True
      with "1.prems" Some b show ?thesis by (simp add: find_unescaped_comma.simps [of s pos])
    next
      case False
      with "1.prems" Some have "find_unescaped_comma s (q + 1) = Some p"
        by (auto simp: find_unescaped_comma.simps [of s pos])
      with "1.IH" [OF Some] False b show ?thesis by auto
    qed
  qed
qed

text \<open>
  The loop of \<open>get_fonts\<close>. \<open>index\<close> is \<open>None\<close> when \<open>find_first_not_of\<close> returned
  \<open>npos\<close>: the test after it looks at \<open>pos\<close>, which is not \<open>npos\<close> there, so the loop
  goes on, \<open>find\<close> from \<open>npos\<close> finds nothing and \<open>substr(npos)\<close> throws
  \<open>std::out_of_range\<close>.
\<close>

datatype exception = Out_of_range

function get_fonts_loop ::
  "string \<Rightarrow> real \<Rightarrow> nat option \<Rightarrow> font list \<Rightarrow> exception + font list"
where
  "get_fonts_loop fontopt default_size index fonts =
     (case index of
        None \<Rightarrow> Inl Out_of_range
      | Some i \<Rightarrow>
          (case find_unescaped_comma fontopt i of
             None \<Rightarrow>
               if length fontopt < i then Inl Out_of_range
               else Inr (fonts @ [make_font (drop i fontopt) default_size])
           | Some pos \<Rightarrow>
               get_fonts_loop fontopt default_size
                 (sv_find_first_not_of fontopt CHR '' '' (pos + 1))
                 (fonts @ [make_font (substr fontopt i (pos - i)) default_size])))"
  by pat_completeness auto
termination
proof (relation "measure (\<lambda>(s, d, index, fonts). case index of None \<Rightarrow> 0 | Some i \<Rightarrow> Suc (length s - i))")
  show "wf (measure (\<lambda>(s, d, index, fonts). case index of None \<Rightarrow> 0 | Some i \<Rightarrow> Suc (length s - i)))"
    by simp
next
  fix fontopt :: string and default_size :: real and index :: "nat option"
    and fonts :: "font list" and i pos
  assume "index = Some i" and f: "find_unescaped_comma fontopt i = Some pos"
  note b = find_unescaped_comma_bounds [OF f]
  show "((fontopt, default_size, sv_find_first_not_of fontopt CHR '' '' (pos + 1),
           fonts @ [make_font (substr fontopt i (pos - i)) default_size]),
          (fontopt, default_size, index, fonts))
        \<in> measure (\<lambda>(s, d, index, fonts). case index of None \<Rightarrow> 0 | Some i \<Rightarrow> Suc (length s - i))"
    using b \<open>index = Some i\<close>
    by (auto simp: sv_find_first_not_of_def split: option.splits)
qed

declare get_fonts_loop.simps [simp del]

definition get_fonts :: "real \<Rightarrow> ui_controller \<Rightarrow> exception + font list" where
  "get_fonts default_size c =
     (if option_guifont c = [] then Inr []
      else get_fonts_loop (option_guifont c) default_size (Some 0) [])"

section \<open>Concrete states and observations\<close>

text \<open>
  A controller as it is after construction, with a grid of two rows and two columns and
  the default entry in the highlight table, and an instance of the declarations of ui.hpp.
  The model is run on them at concrete inputs.
\<close>

definition sample_attrs :: cell_attributes where
  "sample_attrs = \<lparr>foreground = rgb_default 0xFFFFFF, background = rgb_default 0,
     special = rgb_default 0xFF0000, flags = {}\<rparr>"

definition sample_cursor :: cursor_attributes where
  "sample_cursor = \<lparr>shape = block, percentage = 0, blinkwait = 0, blinkon = 0, blinkoff = 0,
     blinks = False, cursor_special = rgb_plain 0, cursor_foreground = rgb_plain 0,
     cursor_background = rgb_plain 0\<rparr>"

definition sample_cell :: cell where
  "sample_cell = \<lparr>cell_text = '' '', attrs = sample_attrs\<rparr>"

definition sample_grid :: grid where
  "sample_grid = \<lparr>grid_width = 2, grid_height = 2,
     cells = [sample_cell, sample_cell, sample_cell, sample_cell],
     cursor_row = 0, cursor_col = 0, cursor_attrs = sample_cursor, draw_tick = 0\<rparr>"

definition sample_options :: options where
  "sample_options = \<lparr>ext_cmdline = False, ext_hlstate = False, ext_linegrid = True,
     ext_messages = False, ext_multigrid = False, ext_popupmenu = False, ext_tabline = False,
     ext_termcolors = False\<rparr>"

definition sample_controller :: ui_controller where
  "sample_controller = \<lparr>hltable = [sample_attrs], grid0 = sample_grid, grid1 = sample_grid,
     writing = Grid0, complete = Grid1, flush_wait = False, mode_info_table = [],
     current_mode = 0, option_title = [], option_guifont = [], opts = sample_options,
     effects = []\<rparr>"

definition plain_attrs :: cell_attributes where
  "plain_attrs = \<lparr>foreground = rgb_plain 0, background = rgb_plain 0, special = rgb_plain 0,
     flags = {}\<rparr>"

definition sample_hpp :: ui_hpp where
  "sample_hpp = \<lparr>empty_cell = \<lparr>cell_text = [], attrs = plain_attrs\<rparr>,
     empty_mode_info = \<lparr>mode_name = [], info_cursor_attrs = sample_cursor\<rparr>\<rparr>"

lemmas sample_defs = sample_attrs_def sample_cursor_def sample_cell_def sample_grid_def
  sample_options_def sample_controller_def plain_attrs_def sample_hpp_def


text \<open>How often the window was told that the options changed.\<close>

definition options_set_count :: "ui_controller \<Rightarrow> nat" where
  "options_set_count c = count_list (effects c) Window_options_set"

text \<open>The entry that \<open>default_colors_set\<close> writes at id 0.\<close>

definition default_entry :: "32 word \<Rightarrow> 32 word \<Rightarrow> 32 word \<Rightarrow> cell_attributes" where
  "default_entry fg bg sp =
     \<lparr>foreground = rgb_default fg, background = rgb_default bg, special = rgb_default sp,
      flags = {}\<rparr>"

text \<open>
  The acceptance of an argument tuple in the words of the specification: a sequence as
  long as the parameter list, each element of the declared type.
\<close>

definition spec_accepts :: "handler \<Rightarrow> msg_object \<Rightarrow> bool" where
  "spec_accepts h object =
     (case object of
        MArr args \<Rightarrow>
          length args = length (signature_of h) \<and> list_all2 is_type (signature_of h) args
      | _ \<Rightarrow> False)"

text \<open>The handler that \<open>redraw_event\<close> selects for an event name.\<close>

definition handler_of :: "string \<Rightarrow> handler option" where
  "handler_of name =
     (if name = ''grid_line'' then Some H_grid_line
      else if name = ''grid_resize'' then Some H_grid_resize
      else if name = ''grid_scroll'' then Some H_grid_scroll
      else if name = ''flush'' then Some H_flush
      else if name = ''grid_clear'' then Some H_grid_clear
      else if name = ''hl_attr_define'' then Some H_hl_attr_define
      else if name = ''default_colors_set'' then Some H_default_colors_set
      else if name = ''mode_info_set'' then Some H_mode_info_set
      else if name = ''mode_change'' then Some H_mode_change
      else if name = ''grid_cursor_goto'' then Some H_grid_cursor_goto
      else if name = ''set_title'' then Some H_set_title
      else if name = ''option_set'' then Some H_set_option
      else None)"

text \<open>
  The iterations of the loop of \<open>grid_line\<close> over a leading part of the cell updates:
  \<open>Inl\<close> is the state in which the next update is met, \<open>Inr\<close> a \<open>return\<close> on the way.
\<close>

fun grid_line_steps ::
  "highlight_table \<Rightarrow> nat \<Rightarrow> msg_object list \<Rightarrow> line_state \<Rightarrow> line_state + line_result"
where
  "grid_line_steps table rowbegin [] st = Inl st"
| "grid_line_steps table rowbegin (object # rest) st =
     (case grid_line_step table rowbegin object st of
        Inl st' \<Rightarrow> grid_line_steps table rowbegin rest st'
      | Inr r \<Rightarrow> Inr r)"



text \<open>
  The trailing digits of a field and the number they denote; whether \<open>:h\<close> stands
  before them; the font of a field, as \<open>make_font\<close> is meant to give it: a field that
  ends in \<open>:h\<close> and digits of a non-zero number is the family before \<open>:h\<close> at that
  size, converted to a double, every other field is a family at the default size.
\<close>

definition digit_suffix :: "string \<Rightarrow> string" where
  "digit_suffix f = rev (takeWhile isdigit (rev f))"

definition decimal :: "string \<Rightarrow> nat" where
  "decimal ds = foldl (\<lambda>n ch. 10 * n + digit_value ch) 0 ds"

definition has_size_suffix :: "string \<Rightarrow> bool" where
  "has_size_suffix f =
     (let ds = digit_suffix f; stem = take (length f - length ds) f in
      drop (length stem - 2) stem = '':h'')"

definition font_of_field :: "real \<Rightarrow> string \<Rightarrow> font" where
  "font_of_field default_size f =
     (let ds = digit_suffix f; stem = take (length f - length ds) f in
      if decimal ds \<noteq> 0 \<and> drop (length stem - 2) stem = '':h''
      then \<lparr>font_name = take (length stem - 2) stem,
             font_size = double_of_size_t (decimal ds)\<rparr>
      else \<lparr>font_name = f, font_size = default_size\<rparr>)"

text \<open>
  The fields of a font list: a comma that is not preceded by a backslash ends a field,
  and the spaces after such a comma do not belong to the next field. \<open>esc\<close> tells
  whether the character before is a backslash.
\<close>

function font_fields :: "bool \<Rightarrow> string \<Rightarrow> string \<Rightarrow> string list" where
  "font_fields esc field [] = [field]"
| "font_fields esc field (ch # rest) =
     (if ch = CHR '','' \<and> \<not> esc
      then field # font_fields False [] (dropWhile (\<lambda>x. x = CHR '' '') rest)
      else font_fields (ch = CHR 0x5C) (field @ [ch]) rest)"
  by pat_completeness auto
termination
  by (relation "measure (\<lambda>(esc, field, s). length s)")
     (auto simp: less_Suc_eq_le length_dropWhile_le)

text \<open>
  Whether a font list ends after a comma that ends a field, with nothing but spaces behind
  it.
\<close>

function trailing_separator :: "bool \<Rightarrow> string \<Rightarrow> bool" where
  "trailing_separator esc [] = False"
| "trailing_separator esc (ch # rest) =
     (if ch = CHR '','' \<and> \<not> esc
      then dropWhile (\<lambda>x. x = CHR '' '') rest = []
           \<or> trailing_separator False (dropWhile (\<lambda>x. x = CHR '' '') rest)
      else trailing_separator (ch = CHR 0x5C) rest)"
  by pat_completeness auto
termination
  by (relation "measure (\<lambda>(esc, s). length s)")
     (auto simp: less_Suc_eq_le length_dropWhile_le)

text \<open>
  A comma at position \<open>i\<close> does not end a field, for \<open>find_unescaped_comma\<close>, when
  \<open>i\<close> is 0 or a backslash stands before it.
\<close>

definition escaped_at :: "string \<Rightarrow> nat \<Rightarrow> bool" where
  "escaped_at s i = (i = 0 \<or> s ! (i - 1) = CHR 0x5C)"

text \<open>
  The parser in the words of the specification: split at the commas not preceded by a
  backslash, take one leading space off each field, strip a trailing \<open>:h\<close> with digits.
\<close>

fun spec_split :: "bool \<Rightarrow> string \<Rightarrow> string \<Rightarrow> string list" where
  "spec_split esc field [] = [field]"
| "spec_split esc field (ch # rest) =
     (if ch = CHR '','' \<and> \<not> esc then field # spec_split False [] rest
      else spec_split (ch = CHR 0x5C) (field @ [ch]) rest)"

definition spec_trim :: "string \<Rightarrow> string" where
  "spec_trim f = (case f of [] \<Rightarrow> [] | ch # rest \<Rightarrow> if ch = CHR '' '' then rest else f)"

definition spec_font :: "real \<Rightarrow> string \<Rightarrow> font" where
  "spec_font default_size f =
     (let ds = digit_suffix f; stem = take (length f - length ds) f in
      if ds \<noteq> [] \<and> drop (length stem - 2) stem = '':h''
      then \<lparr>font_name = take (length stem - 2) stem, font_size = real (decimal ds)\<rparr>
      else \<lparr>font_name = f, font_size = default_size\<rparr>)"

definition spec_parse_font_list :: "string \<Rightarrow> real \<Rightarrow> font list" where
  "spec_parse_font_list s default_size =
     map (\<lambda>f. spec_font default_size (spec_trim f)) (spec_split False [] s)"

text \<open>
  What the constructor of the controller establishes and every handler keeps: the
  highlight table holds its default entry, and the writing and the complete pointer refer
  to different grids.
\<close>

definition well_formed :: "ui_controller \<Rightarrow> bool" where
  "well_formed c = (hltable c \<noteq> [] \<and> writing c \<noteq> complete c)"

text \<open>Whether an event is an \<open>option_set\<close> event.\<close>

definition is_option_set :: "msg_object \<Rightarrow> bool" where
  "is_option_set ev = (case ev of MArr (MStr name # tuples) \<Rightarrow> name = ''option_set'' | _ \<Rightarrow> False)"

section \<open>Highlight table: defining an id\<close>

text \<open>
  Defining the id just after the table appends the new record; defining an id further out
  makes the table as long as the id, writes the new record one position before the id and
  leaves the id itself outside the table.
\<close>

lemma hl_define_at_length:
  assumes "table \<noteq> []"
  shows "length (fst (hl_define table (length table) m)) = Suc (length table)
       \<and> take (length table) (fst (hl_define table (length table) m)) = table
       \<and> hl_get_entry (fst (hl_define table (length table) m)) (length table)
           = swap_if_reverse (fst (hl_attr_pairs m (table ! 0, [])))"
  using assms
  by (simp add: hl_define_def hl_new_entry_def hl_get_entry_def Let_def nth_append)

lemma hl_define_beyond_length:
  assumes "table \<noteq> []" and "length table < k"
  shows "length (fst (hl_define table k m)) = k
       \<and> hl_get_entry (fst (hl_define table k m)) k = table ! 0
       \<and> fst (hl_define table k m) ! (k - 1)
           = swap_if_reverse (fst (hl_attr_pairs m (table ! 0, [])))"
proof -
  have pos: "0 < length table" using assms(1) by simp
  let ?t1 = "table @ replicate (k - length table) (table ! 0)"
  have len: "length ?t1 = k" using assms(2) by simp
  have new: "hl_new_entry table k = (?t1, k - 1)"
    using assms(2) by (simp add: hl_new_entry_def Let_def)
  have old: "?t1 ! (k - 1) = table ! 0"
    using assms(2) pos by (simp add: nth_append)
  have zero: "?t1 ! 0 = table ! 0"
    using pos by (simp add: nth_append)
  have k: "k - 1 \<noteq> 0" "k - 1 < k"
    using assms(2) pos by linarith+
  show ?thesis
    using len old zero k
    by (simp add: hl_define_def new Let_def hl_get_entry_def del: replicate_eq_replicate)
qed

text \<open>
  C1. Defining an id \<open>k\<close> beyond the length \<open>n\<close> of the table should fill the ids from
  \<open>n\<close> up to \<open>k\<close> with copies of entry 0 and create the entry \<open>k\<close>, so that resolving
  \<open>k\<close> gives the new record. \<open>hl_new_entry\<close> resizes the table to \<open>k\<close> entries, not
  \<open>k + 1\<close>: on a table that holds only the default entry, defining id 2 leaves a table
  of length 2, the new record sits at id 1, and resolving id 2 gives the default entry.
\<close>

theorem hl_attr_define_beyond_length:
  "length (hltable (hl_attr_define 2 [(MStr ''foreground'', MInt 0xFF0000)] sample_controller)) = 2
   \<and> hltable (hl_attr_define 2 [(MStr ''foreground'', MInt 0xFF0000)] sample_controller) ! 1
       = sample_attrs\<lparr>foreground := rgb_plain 0xFF0000\<rparr>
   \<and> hl_get_entry (hltable (hl_attr_define 2 [(MStr ''foreground'', MInt 0xFF0000)] sample_controller)) 2
       = sample_attrs"
  by (simp add: hl_attr_define_def hl_define_def hl_new_entry_def hl_attr_pair_def
        set_rgb_color_def swap_if_reverse_def emit_def hl_get_entry_def sample_defs
        rgb_plain_def rgb_default_def as_uint32_def Let_def)

section \<open>Flush\<close>

text \<open>
  C2. After \<open>flush\<close> the grid that is the new writing target is equal, in every field
  (cells, cursor, version tick), to the grid that was just published as complete. The
  published grid is the former writing grid with its tick incremented, and the two
  pointers have changed places.
\<close>

theorem flush_copies_published_grid:
  "complete (flush c) = writing c
   \<and> writing (flush c) = complete c
   \<and> deref (complete (flush c)) (flush c)
       = (deref (writing c) c)\<lparr>draw_tick := draw_tick (deref (writing c) c) + 1\<rparr>
   \<and> deref (writing (flush c)) (flush c) = deref (complete (flush c)) (flush c)"
  by (cases "writing c"; cases "complete c") (simp_all add: flush_def emit_def Let_def)

section \<open>Mode changes\<close>

lemma mode_change_current_mode: "current_mode (mode_change name index c) = current_mode c"
  by (cases "writing c") (simp_all add: mode_change_def emit_def)

lemma mode_info_set_current_mode: "current_mode (mode_info_set H enabled maps c) = 0"
proof -
  have "current_mode (fold (mode_info_push H) maps c') = current_mode c'" for c'
    by (induction maps arbitrary: c')
       (simp_all add: mode_info_push_def emit_def Let_def split: msg_object.splits)
  then show ?thesis by (simp add: mode_info_set_def)
qed

lemma mode_change_in_range:
  "index < length (mode_info_table c) \<Longrightarrow>
     cursor_attrs (deref (writing c) (mode_change name index c))
       = info_cursor_attrs (mode_info_table c ! index)
     \<and> effects (mode_change name index c) = effects c"
  by (cases "writing c") (simp_all add: mode_change_def)

lemma mode_change_out_of_range:
  "length (mode_info_table c) \<le> index \<Longrightarrow>
     mode_change name index c = emit [Log_error ''Redraw error: Mode index out of bounds''] c"
  by (simp add: mode_change_def)

text \<open>
  C5. \<open>mode_change\<close> with an index in range should make that index the current mode.
  The handler installs the cursor attributes of the mode in the writing grid and leaves
  \<open>current_mode\<close> as it was: after \<open>mode_info_set\<close> with two modes and
  \<open>mode_change\<close> to index 1 the cursor has the shape of mode 1 and \<open>current_mode\<close>
  is still 0.
\<close>

theorem mode_change_keeps_current_mode:
  "current_mode (mode_change ''insert'' 1
      (mode_info_set sample_hpp True
         [MMap [], MMap [(MStr ''cursor_shape'', MStr ''vertical'')]] sample_controller)) = 0
   \<and> cursor_attrs (grid0 (mode_change ''insert'' 1
      (mode_info_set sample_hpp True
         [MMap [], MMap [(MStr ''cursor_shape'', MStr ''vertical'')]] sample_controller)))
       = sample_cursor\<lparr>shape := vertical\<rparr>"
  by (simp add: mode_change_def mode_info_set_def mode_info_push_def to_mode_info_def
        mode_info_pair_def to_cursor_shape_def emit_def sample_defs Let_def rgb_plain_def)


section \<open>Title\<close>

lemma accepts_set_title:
  "accepts H_set_title obj \<longleftrightarrow> (\<exists>t rest. obj = MArr (MStr t # rest))"
proof (cases obj)
  case (MArr args)
  then show ?thesis
    by (cases args) (auto simp: accepts_def split: msg_object.splits)
qed (simp_all add: accepts_def)

lemma apply_tuples_set_title:
  "apply_tuples H H_set_title name (map (\<lambda>t. MArr [MStr t]) titles) c
     = Inr (c\<lparr>option_title := last (option_title c # titles),
              effects := effects c @ replicate (length titles) Window_title_set\<rparr>)"
proof (induction titles arbitrary: c)
  case Nil
  show ?case by simp
next
  case (Cons t titles)
  have "apply_one H H_set_title name (MArr [MStr t]) c = Inr (set_title t c)"
    by (simp add: apply_one_def accepts_def call_def)
  then show ?case
    using Cons.IH [of "set_title t c"]
    by (simp add: set_title_def emit_def)
qed

text \<open>
  C10. Every well-formed \<open>set_title\<close> event calls \<open>title_set\<close> of the window, once for
  each of its tuples, whatever the title was before: also an event that carries the
  current title adds the notification.
\<close>

theorem set_title_always_notifies:
  "redraw_event H (MArr (MStr ''set_title'' # map (\<lambda>t. MArr [MStr t]) titles)) c
     = Inr (c\<lparr>option_title := last (option_title c # titles),
              effects := effects c @ replicate (length titles) Window_title_set\<rparr>)
   \<and> redraw_event H (MArr [MStr ''set_title'', MArr [MStr (option_title c)]]) c
     = Inr (c\<lparr>effects := effects c @ [Window_title_set]\<rparr>)"
proof -
  have a: "redraw_event H (MArr (MStr ''set_title'' # tuples)) c
             = apply_tuples H H_set_title ''set_title'' tuples c" for tuples
    by (simp add: redraw_event_def)
  have b: "redraw_event H (MArr [MStr ''set_title'', MArr [MStr (option_title c)]]) c
             = Inr (c\<lparr>effects := effects c @ [Window_title_set]\<rparr>)"
    using apply_tuples_set_title [of H "''set_title''" "[option_title c]" c]
    by (simp add: a)
  show ?thesis
    using b by (simp add: a apply_tuples_set_title)
qed

section \<open>Options\<close>

lemma accepts_set_option:
  "accepts H_set_option obj \<longleftrightarrow> (\<exists>n v rest. obj = MArr (MStr n # v # rest))"
proof (cases obj)
  case (MArr args)
  show ?thesis
  proof (cases args)
    case Nil
    with MArr show ?thesis by (simp add: accepts_def)
  next
    case (Cons a rest)
    with MArr show ?thesis
      by (cases rest) (auto simp: accepts_def split: msg_object.splits)
  qed
qed (simp_all add: accepts_def)

lemma set_option_frame:
  "options_set_count (set_option n v c) = options_set_count c"
  by (simp add: set_option_def set_font_option_def set_ext_option_def emit_def
        options_set_count_def split: msg_object.splits)

lemma apply_one_set_option:
  "\<exists>c'. apply_one H H_set_option name obj c = Inr c' \<and> options_set_count c' = options_set_count c"
proof (cases "accepts H_set_option obj")
  case True
  then obtain n v rest where "obj = MArr (MStr n # v # rest)"
    by (auto simp: accepts_set_option)
  with True show ?thesis
    by (simp add: apply_one_def call_def set_option_frame)
next
  case False
  then show ?thesis
    by (simp add: apply_one_def emit_def options_set_count_def)
qed

lemma apply_tuples_set_option:
  "\<exists>c'. apply_tuples H H_set_option name tuples c = Inr c'
        \<and> options_set_count c' = options_set_count c"
proof (induction tuples arbitrary: c)
  case Nil
  show ?case by simp
next
  case (Cons t tuples)
  obtain c1 where c1: "apply_one H H_set_option name t c = Inr c1"
      "options_set_count c1 = options_set_count c"
    using apply_one_set_option by blast
  with Cons.IH [of c1] show ?case by auto
qed

lemma effects_assign [simp]: "effects (assign p g c) = effects c"
  by (cases p) simp_all

lemma count_emit [simp]:
  "options_set_count (emit es c) = options_set_count c + count_list es Window_options_set"
  by (simp add: options_set_count_def emit_def)

lemma count_assign [simp]: "options_set_count (assign p g c) = options_set_count c"
  by (simp add: options_set_count_def)

lemma hl_attr_pairs_quiet:
  "count_list (snd (hl_attr_pairs m st)) Window_options_set
     = count_list (snd st) Window_options_set"
proof (induction m arbitrary: st)
  case Nil
  show ?case by simp
next
  case (Cons pair m)
  have "count_list (snd (hl_attr_pair pair st)) Window_options_set
          = count_list (snd st) Window_options_set"
    by (simp add: hl_attr_pair_def set_rgb_color_def Let_def split: msg_object.splits)
  with Cons.IH [of "hl_attr_pair pair st"] show ?case by simp
qed

lemma count_hl_attr_define:
  "options_set_count (hl_attr_define hlid m c) = options_set_count c"
  by (simp add: hl_attr_define_def hl_define_def Let_def hl_attr_pairs_quiet options_set_count_def
        emit_def)

lemma count_default_colors_set:
  "options_set_count (default_colors_set fg bg sp c) = options_set_count c"
  by (simp add: default_colors_set_def Let_def options_set_count_def)

lemma count_flush: "options_set_count (flush c) = options_set_count c"
  by (simp add: flush_def Let_def options_set_count_def emit_def)

lemma mode_info_pairs_quiet:
  "count_list (snd (fold (mode_info_pair t) m st)) Window_options_set
     = count_list (snd st) Window_options_set"
proof (induction m arbitrary: st)
  case Nil
  show ?case by simp
next
  case (Cons pair m)
  have "count_list (snd (mode_info_pair t pair st)) Window_options_set
          = count_list (snd st) Window_options_set"
    by (simp add: mode_info_pair_def to_cursor_shape_def set_color_attrs_def Let_def
          split: msg_object.splits)
  with Cons.IH [of "mode_info_pair t pair st"] show ?case by simp
qed

lemma count_mode_info_set:
  "options_set_count (mode_info_set H e ms c) = options_set_count c"
proof -
  have push: "options_set_count (mode_info_push H object c') = options_set_count c'"
    for object c'
    by (simp add: mode_info_push_def to_mode_info_def Let_def mode_info_pairs_quiet
          options_set_count_def emit_def split: msg_object.splits)
  have "options_set_count (fold (mode_info_push H) ms c') = options_set_count c'" for c'
    by (induction ms arbitrary: c') (simp_all add: push)
  from this [of "c\<lparr>mode_info_table := [], current_mode := 0\<rparr>"] show ?thesis
    by (simp add: mode_info_set_def options_set_count_def)
qed

lemma count_mode_change: "options_set_count (mode_change n i c) = options_set_count c"
  by (simp add: mode_change_def)

lemma count_set_title: "options_set_count (set_title t c) = options_set_count c"
  by (simp add: set_title_def options_set_count_def emit_def)

lemma grid_line_loop_quiet:
  "grid_line_loop t rb cs st = Done cells' lg \<Longrightarrow> count_list lg Window_options_set = 0"
proof (induction cs arbitrary: st)
  case Nil
  then show ?case by simp
next
  case (Cons object cs)
  show ?case
  proof (cases "grid_line_step t rb object st")
    case (Inl st')
    with Cons show ?thesis by simp
  next
    case (Inr r)
    with Cons.prems show ?thesis
      by (auto simp: grid_line_step_def Let_def split: option.splits if_splits)
  qed
qed

lemma count_grid_line:
  "grid_line g r k cs c = Inr c' \<Longrightarrow> options_set_count c' = options_set_count c"
  by (auto simp: grid_line_def Let_def dest: grid_line_loop_quiet
        split: sum.splits if_splits line_result.splits)

lemma count_grid_resize:
  "grid_resize H g w h c = Inr c' \<Longrightarrow> options_set_count c' = options_set_count c"
  by (auto simp: grid_resize_def split: sum.splits)

lemma count_grid_clear:
  "grid_clear H g c = Inr c' \<Longrightarrow> options_set_count c' = options_set_count c"
  by (auto simp: grid_clear_def Let_def split: sum.splits)

lemma count_grid_cursor_goto:
  "grid_cursor_goto g r k c = Inr c' \<Longrightarrow> options_set_count c' = options_set_count c"
  by (auto simp: grid_cursor_goto_def Let_def split: sum.splits if_splits)

lemma count_grid_scroll:
  "grid_scroll g t b l r n c = Inr c' \<Longrightarrow> options_set_count c' = options_set_count c"
  by (auto simp: grid_scroll_def Let_def split: sum.splits if_splits option.splits)

lemma count_call:
  "call H h args c = Inr c' \<Longrightarrow> options_set_count c' = options_set_count c"
  by (cases h)
     (auto simp: call_def count_hl_attr_define count_default_colors_set count_flush
        count_mode_info_set count_mode_change count_set_title set_option_frame
        dest: count_grid_line count_grid_resize count_grid_clear count_grid_cursor_goto
          count_grid_scroll
        split: list.splits msg_object.splits)

lemma count_apply_one:
  "apply_one H h name obj c = Inr c' \<Longrightarrow> options_set_count c' = options_set_count c"
  by (auto simp: apply_one_def dest: count_call split: if_splits msg_object.splits)

lemma count_apply_tuples:
  "apply_tuples H h name tuples c = Inr c' \<Longrightarrow> options_set_count c' = options_set_count c"
proof (induction tuples arbitrary: c)
  case Nil
  then show ?case by simp
next
  case (Cons t tuples)
  then obtain c1 where "apply_one H h name t c = Inr c1"
      and "apply_tuples H h name tuples c1 = Inr c'"
    by (auto split: sum.splits)
  with Cons.IH [of c1] count_apply_one [of H h name t c c1] show ?case by simp
qed

lemma count_redraw_event_other:
  assumes "redraw_event H ev c = Inr c'"
      and "\<forall>tuples. ev \<noteq> MArr (MStr ''option_set'' # tuples)"
  shows "options_set_count c' = options_set_count c"
  using assms
  by (auto simp: redraw_event_def dest: count_apply_tuples
        split: msg_object.splits list.splits if_splits)


lemma is_option_set_iff:
  "is_option_set ev \<longleftrightarrow> (\<exists>tuples. ev = MArr (MStr ''option_set'' # tuples))"
  by (auto simp: is_option_set_def split: msg_object.splits list.splits)

lemma option_set_event_count:
  "\<exists>c'. redraw_event H (MArr (MStr ''option_set'' # tuples)) c = Inr c'
        \<and> options_set_count c' = options_set_count c + (if opts c' = opts c then 0 else 1)"
proof -
  obtain c1 where c1: "apply_tuples H H_set_option ''option_set'' tuples c = Inr c1"
      "options_set_count c1 = options_set_count c"
    using apply_tuples_set_option by blast
  then show ?thesis
    by (simp add: redraw_event_def emit_def options_set_count_def)
qed

text \<open>
  C4, as the code has it. The snapshot of the options is taken and compared once for
  every \<open>option_set\<close> event: while one such event is processed \<open>options_set\<close> is
  called at most once, and it is called exactly when the options after the event differ
  from the options before the event. No other event calls it.
\<close>

theorem options_set_once_per_event:
  "(\<exists>c'. redraw_event H (MArr (MStr ''option_set'' # tuples)) c = Inr c'
        \<and> options_set_count c' = options_set_count c + (if opts c' = opts c then 0 else 1))
   \<and> (redraw_event H ev c = Inr c1 \<longrightarrow> \<not> is_option_set ev \<longrightarrow>
        options_set_count c1 = options_set_count c)"
proof (intro conjI impI)
  show "\<exists>c'. redraw_event H (MArr (MStr ''option_set'' # tuples)) c = Inr c'
        \<and> options_set_count c' = options_set_count c + (if opts c' = opts c then 0 else 1)"
    by (rule option_set_event_count)
next
  assume "redraw_event H ev c = Inr c1" and "\<not> is_option_set ev"
  then show "options_set_count c1 = options_set_count c"
    by (intro count_redraw_event_other) (simp_all add: is_option_set_iff)
qed

text \<open>A \<open>set_title\<close> event is not an \<open>option_set\<close> event and leaves the count.\<close>

theorem options_set_once_per_event_witness:
  "redraw_event sample_hpp (MArr [MStr ''set_title'', MArr [MStr ''t'']]) sample_controller
     = Inr (set_title ''t'' sample_controller)
   \<and> \<not> is_option_set (MArr [MStr ''set_title'', MArr [MStr ''t'']])
   \<and> options_set_count (set_title ''t'' sample_controller) = options_set_count sample_controller"
proof -
  have e: "redraw_event sample_hpp (MArr [MStr ''set_title'', MArr [MStr ''t'']]) sample_controller
             = Inr (set_title ''t'' sample_controller)"
    by (simp add: redraw_event_def apply_one_def accepts_def call_def)
  have n: "\<not> is_option_set (MArr [MStr ''set_title'', MArr [MStr ''t'']])"
    by (simp add: is_option_set_def)
  from options_set_once_per_event [of sample_hpp "[]" sample_controller
         "MArr [MStr ''set_title'', MArr [MStr ''t'']]" "set_title ''t'' sample_controller"] e n
  show ?thesis by simp
qed

text \<open>
  C4, as stated, fails: a batch with two \<open>option_set\<close> events, the second undoing the
  first, calls \<open>options_set\<close> twice, and the options after the batch are the options
  before it.
\<close>

theorem options_set_twice_in_batch:
  "(case redraw sample_hpp
           [MArr [MStr ''option_set'', MArr [MStr ''ext_cmdline'', MBool True]],
            MArr [MStr ''option_set'', MArr [MStr ''ext_cmdline'', MBool False]]]
           sample_controller of
      Inl f \<Rightarrow> False
    | Inr c' \<Rightarrow> options_set_count c' = 2 \<and> opts c' = opts sample_controller)"
  by (simp add: redraw_event_def apply_one_def accepts_def call_def set_option_def
        set_ext_option_def emit_def options_set_count_def sample_defs)

text \<open>
  Over a batch, \<open>options_set\<close> is called at most as often as the batch has
  \<open>option_set\<close> events.
\<close>

lemma redraw_options_set_bound:
  "redraw H events c = Inr c' \<Longrightarrow>
     options_set_count c' \<le> options_set_count c + length (filter is_option_set events)"
proof (induction events arbitrary: c)
  case Nil
  then show ?case by simp
next
  case (Cons ev events)
  then obtain c1 where e: "redraw_event H ev c = Inr c1" and r: "redraw H events c1 = Inr c'"
    by (auto split: sum.splits)
  have "options_set_count c1 \<le> options_set_count c + (if is_option_set ev then 1 else 0)"
  proof (cases "is_option_set ev")
    case True
    then obtain tuples where "ev = MArr (MStr ''option_set'' # tuples)"
      by (auto simp: is_option_set_iff)
    with e option_set_event_count [of H tuples c] True show ?thesis
      by (auto split: if_splits)
  next
    case False
    with e count_redraw_event_other [of H ev c c1] show ?thesis
      by (simp add: is_option_set_iff)
  qed
  with Cons.IH [OF r] show ?case by (auto split: if_splits)
qed


section \<open>Default colours\<close>

lemma adjust_defaults_fields:
  "foreground (adjust_defaults def a)
     = (if is_default (foreground a)
        then (if reverse \<in> flags a then background def else foreground def)
        else foreground a)"
  "background (adjust_defaults def a)
     = (if is_default (background a)
        then (if reverse \<in> flags a then foreground def else background def)
        else background a)"
  "special (adjust_defaults def a) = (if is_default (special a) then special def else special a)"
  "flags (adjust_defaults def a) = flags a"
  by (simp_all add: adjust_defaults_def Let_def)

lemma adjust_defaults_self:
  "reverse \<notin> flags def \<Longrightarrow> adjust_defaults def def = def"
  by (simp add: adjust_defaults_def Let_def)

lemma adjust_defaults_in_eq:
  assumes "i < length t" and "reverse \<notin> flags (t ! 0)"
  shows "adjust_defaults_in t i = t[i := adjust_defaults (t ! 0) (t ! i)]"
proof (cases "i = 0")
  case True
  with assms show ?thesis
    by (simp add: adjust_defaults_in_def adjust_defaults_def Let_def)
next
  case False
  with assms show ?thesis
    by (simp add: adjust_defaults_in_def adjust_defaults_def Let_def)
qed

lemma map_take_update:
  assumes "n < length xs"
  shows "(map f (take n xs) @ drop n xs)[n := f (xs ! n)]
           = map f (take (Suc n) xs) @ drop (Suc n) xs"
proof -
  have "drop n xs = xs ! n # drop (Suc n) xs"
    using assms by (simp add: Cons_nth_drop_Suc)
  then show ?thesis
    using assms by (simp add: take_Suc_conv_app_nth list_update_append)
qed

lemma adjust_table_loop:
  assumes "n \<le> length t" and "reverse \<notin> flags (t ! 0)"
  shows "fold (\<lambda>i t. adjust_defaults_in t i) [0..<n] t
           = map (adjust_defaults (t ! 0)) (take n t) @ drop n t"
  using assms(1)
proof (induction n)
  case 0
  show ?case by simp
next
  case (Suc n)
  let ?f = "adjust_defaults (t ! 0)"
  let ?t' = "map ?f (take n t) @ drop n t"
  have n: "n < length t" using Suc.prems by simp
  have len: "length ?t' = length t" using n by simp
  have zero: "?t' ! 0 = t ! 0"
    using n assms(2) by (cases n) (simp_all add: nth_append adjust_defaults_self)
  have nth: "?t' ! n = t ! n"
    using n by (simp add: nth_append)
  have "fold (\<lambda>i t. adjust_defaults_in t i) [0..<Suc n] t = adjust_defaults_in ?t' n"
    using Suc.IH n by simp
  also have "\<dots> = ?t'[n := ?f (t ! n)]"
    using adjust_defaults_in_eq [of n ?t'] n len zero nth assms(2) by simp
  also have "\<dots> = map ?f (take (Suc n) t) @ drop (Suc n) t"
    using n by (rule map_take_update)
  finally show ?case .
qed


lemma default_colors_set_unfold:
  assumes "hltable c \<noteq> []"
  shows "default_colors_set fg bg sp c
           = assign (writing c)
               ((deref (writing c) c)\<lparr>cells :=
                   map (\<lambda>cl. cl\<lparr>attrs := adjust_defaults (default_entry fg bg sp) (attrs cl)\<rparr>)
                     (cells (deref (writing c) c))\<rparr>)
               (c\<lparr>hltable := default_entry fg bg sp
                     # map (adjust_defaults (default_entry fg bg sp)) (tl (hltable c))\<rparr>)"
proof -
  define d where "d = default_entry fg bg sp"
  define t0 where "t0 = (hltable c)[0 := (hltable c ! 0)\<lparr>foreground := rgb_default fg,
                   background := rgb_default bg, special := rgb_default sp, flags := {}\<rparr>]"
  define t1 where "t1 = fold (\<lambda>i t. adjust_defaults_in t i) [0..<length t0] t0"
  obtain x xs where t: "hltable c = x # xs"
    using assms(1) by (cases "hltable c") auto
  have t0: "t0 = d # xs"
    by (simp add: t0_def t d_def default_entry_def)
  have nr: "reverse \<notin> flags d"
    by (simp add: d_def default_entry_def)
  have "t1 = map (adjust_defaults (t0 ! 0)) (take (length t0) t0) @ drop (length t0) t0"
    unfolding t1_def by (rule adjust_table_loop) (simp_all add: t0 nr)
  then have t1: "t1 = d # map (adjust_defaults d) xs"
    using nr by (simp add: t0 adjust_defaults_self)
  have "default_colors_set fg bg sp c
          = assign (writing c)
              ((deref (writing c) c)\<lparr>cells :=
                  map (\<lambda>cl. cl\<lparr>attrs := adjust_defaults (t1 ! 0) (attrs cl)\<rparr>)
                    (cells (deref (writing c) c))\<rparr>)
              (c\<lparr>hltable := t1\<rparr>)"
    unfolding default_colors_set_def t1_def t0_def Let_def ..
  then show ?thesis
    by (simp add: t1 t d_def [symmetric])
qed

text \<open>
  C8. \<open>default_colors_set\<close> rewrites entry 0 of the highlight table and resolves the
  colour fields marked "use default" of every entry of the table and of every cell of the
  writing grid against the new entry 0 (foreground and background exchanged for a
  reversed record); fields that hold a concrete colour and the flags stay. The complete
  grid, the cursor attributes of the writing grid, the mode table and the two grid
  pointers are unchanged. The table holds its default entry and the two pointers refer to
  different grids, as they do from construction on.
\<close>

theorem default_colors_set_frame:
  assumes "hltable c \<noteq> []" and "writing c \<noteq> complete c"
  shows "hltable (default_colors_set fg bg sp c)
           = default_entry fg bg sp
             # map (adjust_defaults (default_entry fg bg sp)) (tl (hltable c))
       \<and> cells (deref (writing c) (default_colors_set fg bg sp c))
           = map (\<lambda>cl. cl\<lparr>attrs := adjust_defaults (default_entry fg bg sp) (attrs cl)\<rparr>)
               (cells (deref (writing c) c))
       \<and> (\<forall>a. foreground (adjust_defaults (default_entry fg bg sp) a)
                 = (if is_default (foreground a)
                    then (if reverse \<in> flags a then rgb_default bg else rgb_default fg)
                    else foreground a)
              \<and> background (adjust_defaults (default_entry fg bg sp) a)
                 = (if is_default (background a)
                    then (if reverse \<in> flags a then rgb_default fg else rgb_default bg)
                    else background a)
              \<and> special (adjust_defaults (default_entry fg bg sp) a)
                 = (if is_default (special a) then rgb_default sp else special a)
              \<and> flags (adjust_defaults (default_entry fg bg sp) a) = flags a)
       \<and> deref (complete c) (default_colors_set fg bg sp c) = deref (complete c) c
       \<and> writing (default_colors_set fg bg sp c) = writing c
       \<and> complete (default_colors_set fg bg sp c) = complete c
       \<and> cursor_attrs (deref (writing c) (default_colors_set fg bg sp c))
           = cursor_attrs (deref (writing c) c)
       \<and> mode_info_table (default_colors_set fg bg sp c) = mode_info_table c"
proof -
  note u = default_colors_set_unfold [OF assms(1), of fg bg sp]
  have fields: "\<forall>a. foreground (adjust_defaults (default_entry fg bg sp) a)
                 = (if is_default (foreground a)
                    then (if reverse \<in> flags a then rgb_default bg else rgb_default fg)
                    else foreground a)
              \<and> background (adjust_defaults (default_entry fg bg sp) a)
                 = (if is_default (background a)
                    then (if reverse \<in> flags a then rgb_default fg else rgb_default bg)
                    else background a)
              \<and> special (adjust_defaults (default_entry fg bg sp) a)
                 = (if is_default (special a) then rgb_default sp else special a)
              \<and> flags (adjust_defaults (default_entry fg bg sp) a) = flags a"
    by (simp add: adjust_defaults_fields default_entry_def)
  show ?thesis
  proof (cases "writing c")
    case Grid0
    with assms(2) have "complete c = Grid1" by (cases "complete c") auto
    with Grid0 fields show ?thesis by (simp add: u)
  next
    case Grid1
    with assms(2) have "complete c = Grid0" by (cases "complete c") auto
    with Grid1 fields show ?thesis by (simp add: u)
  qed
qed


text \<open>The same on a table with a reversed entry whose foreground is a default colour.\<close>

theorem default_colors_set_frame_witness:
  "hltable (sample_controller\<lparr>hltable := [sample_attrs,
       sample_attrs\<lparr>background := rgb_plain 7, flags := {reverse}\<rparr>]\<rparr>) \<noteq> []
   \<and> writing sample_controller \<noteq> complete sample_controller
   \<and> hltable (default_colors_set 1 2 3 (sample_controller\<lparr>hltable := [sample_attrs,
       sample_attrs\<lparr>background := rgb_plain 7, flags := {reverse}\<rparr>]\<rparr>))
       = [default_entry 1 2 3,
          \<lparr>foreground = rgb_default 2, background = rgb_plain 7, special = rgb_default 3,
             flags = {reverse}\<rparr>]
   \<and> cells (grid0 (default_colors_set 1 2 3 (sample_controller\<lparr>hltable := [sample_attrs,
       sample_attrs\<lparr>background := rgb_plain 7, flags := {reverse}\<rparr>]\<rparr>)))
       = replicate 4 \<lparr>cell_text = '' '', attrs = default_entry 1 2 3\<rparr>
   \<and> grid1 (default_colors_set 1 2 3 (sample_controller\<lparr>hltable := [sample_attrs,
       sample_attrs\<lparr>background := rgb_plain 7, flags := {reverse}\<rparr>]\<rparr>)) = sample_grid"
  using default_colors_set_frame [of "sample_controller\<lparr>hltable := [sample_attrs,
       sample_attrs\<lparr>background := rgb_plain 7, flags := {reverse}\<rparr>]\<rparr>" 1 2 3]
  by (simp add: sample_defs adjust_defaults_def default_entry_def rgb_default_def rgb_plain_def
        numeral_eq_Suc)

section \<open>Argument tuples\<close>

lemma is_all_iff:
  "length sig \<le> length args \<Longrightarrow>
     is_all sig args \<longleftrightarrow> (\<forall>i<length sig. is_type (sig ! i) (args ! i))"
proof (induction sig args rule: is_all.induct)
  case (3 t ts a args)
  then show ?case by (auto simp: less_Suc_eq_0_disj)
qed simp_all

lemma is_all_take:
  "is_all sig (take (length sig) args) = is_all sig args"
  by (induction sig args rule: is_all.induct) simp_all

lemma accepts_iff:
  "accepts h obj \<longleftrightarrow>
     (\<exists>args. obj = MArr args \<and> length (signature_of h) \<le> length args
        \<and> (\<forall>i<length (signature_of h). is_type (signature_of h ! i) (args ! i)))"
  by (cases obj) (auto simp: accepts_def is_all_iff)

lemma call_take:
  "call H h (take (length (signature_of h)) args) c = call H h args c"
proof (cases h)
  case H_grid_scroll
  then show ?thesis
    by (simp add: call_def numeral_eq_Suc take_Suc_Cons split: list.splits msg_object.splits)
qed (simp_all add: call_def numeral_eq_Suc split: list.splits msg_object.splits)


lemma apply_tuples_append:
  "apply_tuples H h name (xs @ ys) c
     = (case apply_tuples H h name xs c of
          Inl f \<Rightarrow> Inl f
        | Inr c' \<Rightarrow> apply_tuples H h name ys c')"
  by (induction xs arbitrary: c) (simp_all split: sum.splits)

lemma redraw_event_recognized:
  assumes "handler_of name = Some h"
  shows "redraw_event H (MArr (MStr name # tuples)) c
           = (if h = H_set_option
              then (case apply_tuples H h name tuples c of
                      Inl f \<Rightarrow> Inl f
                    | Inr c' \<Rightarrow>
                        if opts c' \<noteq> opts c then Inr (emit [Window_options_set] c') else Inr c')
              else apply_tuples H h name tuples c)"
  using assms by (auto simp: handler_of_def redraw_event_def split: if_splits)

text \<open>
  C3, as the code has it. A tuple is accepted exactly when it is a sequence with at least
  as many elements as the handler has parameters and each leading element has the type of
  its parameter (any integer for an integral parameter, anything for \<open>msg::object\<close>);
  the handler is then called on the leading elements, further elements are ignored. A
  tuple that is not accepted adds one type error to the log and changes nothing else, the
  tuples after it are processed, and so are the events after it.
\<close>

theorem tuple_dispatch:
  "(accepts h obj \<longleftrightarrow>
      (\<exists>args. obj = MArr args \<and> length (signature_of h) \<le> length args
         \<and> (\<forall>i<length (signature_of h). is_type (signature_of h ! i) (args ! i))))
   \<and> (accepts h (MArr args) \<longrightarrow>
        apply_one H h name (MArr args) c = call H h (take (length (signature_of h)) args) c)
   \<and> (\<not> accepts h obj \<longrightarrow>
        apply_one H h name obj c
          = Inr (emit [Log_error ''Redraw error: Argument type error''] c))
   \<and> (\<not> accepts h obj \<longrightarrow>
        apply_tuples H h name (pre @ obj # rest) c
          = (case apply_tuples H h name pre c of
               Inl f \<Rightarrow> Inl f
             | Inr c' \<Rightarrow>
                 apply_tuples H h name rest
                   (emit [Log_error ''Redraw error: Argument type error''] c')))
   \<and> (\<not> accepts h obj \<longrightarrow> handler_of name = Some h \<longrightarrow>
        redraw H (MArr [MStr name, obj] # events) c
          = redraw H events (emit [Log_error ''Redraw error: Argument type error''] c))"
proof (intro conjI impI)
  show "accepts h obj \<longleftrightarrow>
      (\<exists>args. obj = MArr args \<and> length (signature_of h) \<le> length args
         \<and> (\<forall>i<length (signature_of h). is_type (signature_of h ! i) (args ! i)))"
    by (rule accepts_iff)
next
  assume "accepts h (MArr args)"
  then show "apply_one H h name (MArr args) c
               = call H h (take (length (signature_of h)) args) c"
    by (simp add: apply_one_def call_take)
next
  assume "\<not> accepts h obj"
  then show "apply_one H h name obj c
               = Inr (emit [Log_error ''Redraw error: Argument type error''] c)"
    by (simp add: apply_one_def)
next
  assume "\<not> accepts h obj"
  then show "apply_tuples H h name (pre @ obj # rest) c
          = (case apply_tuples H h name pre c of
               Inl f \<Rightarrow> Inl f
             | Inr c' \<Rightarrow>
                 apply_tuples H h name rest
                   (emit [Log_error ''Redraw error: Argument type error''] c'))"
    by (simp add: apply_tuples_append apply_one_def split: sum.splits)
next
  assume n: "\<not> accepts h obj" and r: "handler_of name = Some h"
  have one: "apply_tuples H h name [obj] c
          = Inr (emit [Log_error ''Redraw error: Argument type error''] c)"
    using n by (simp add: apply_one_def)
  have "redraw_event H (MArr [MStr name, obj]) c
          = Inr (emit [Log_error ''Redraw error: Argument type error''] c)"
    unfolding redraw_event_recognized [OF r] one by (simp add: emit_def)
  then show "redraw H (MArr [MStr name, obj] # events) c
          = redraw H events (emit [Log_error ''Redraw error: Argument type error''] c)"
    by simp
qed

text \<open>
  On a \<open>set_title\<close> event: a tuple with a further element is accepted, the integer 5 in
  the place of a tuple is logged, and the tuples and events after it are processed.
\<close>

theorem tuple_dispatch_witness:
  "accepts H_set_title (MArr [MStr ''a'', MBool True])
   \<and> \<not> accepts H_set_title (MInt 5)
   \<and> handler_of ''set_title'' = Some H_set_title
   \<and> apply_one sample_hpp H_set_title ''set_title'' (MArr [MStr ''a'', MBool True])
        sample_controller = Inr (set_title ''a'' sample_controller)
   \<and> apply_tuples sample_hpp H_set_title ''set_title'' [MArr [MStr ''a''], MInt 5, MArr [MStr ''b'']]
        sample_controller
       = Inr (sample_controller\<lparr>option_title := ''b'',
                effects := [Window_title_set,
                            Log_error ''Redraw error: Argument type error'',
                            Window_title_set]\<rparr>)
   \<and> redraw sample_hpp
        [MArr [MStr ''set_title'', MInt 5], MArr [MStr ''set_title'', MArr [MStr ''b'']]]
        sample_controller
       = Inr (sample_controller\<lparr>option_title := ''b'',
                effects := [Log_error ''Redraw error: Argument type error'',
                            Window_title_set]\<rparr>)"
  using tuple_dispatch [of H_set_title "MInt 5" "[MStr ''a'', MBool True]" sample_hpp
      "''set_title''" sample_controller "[MArr [MStr ''a'']]" "[MArr [MStr ''b'']]"
      "[MArr [MStr ''set_title'', MArr [MStr ''b'']]]"]
  by (simp add: accepts_def handler_of_def call_def apply_one_def redraw_event_def set_title_def
        emit_def sample_defs)

text \<open>
  C3, as stated, fails: a tuple of two elements for \<open>set_title\<close>, which has one
  parameter, does not have the length of the parameter list, and the handler is called.
\<close>

theorem apply_one_accepts_longer_tuple:
  "\<not> spec_accepts H_set_title (MArr [MStr ''t'', MInt 1])
   \<and> apply_one sample_hpp H_set_title ''set_title'' (MArr [MStr ''t'', MInt 1]) sample_controller
       = Inr (sample_controller\<lparr>option_title := ''t'', effects := [Window_title_set]\<rparr>)"
  by (simp add: spec_accepts_def apply_one_def accepts_def call_def set_title_def emit_def
        sample_defs)

section \<open>Cell updates of a line\<close>

lemma grid_line_loop_steps:
  "grid_line_loop table rb (pre @ rest) st
     = (case grid_line_steps table rb pre st of
          Inl st' \<Rightarrow> grid_line_loop table rb rest st'
        | Inr r \<Rightarrow> r)"
  by (induction pre arbitrary: st) (simp_all split: sum.splits)










lemma cells_assign_writing [simp]:
  "cells (deref (writing c) (assign (writing c) g c)) = cells g"
  by (cases "writing c") simp_all




text \<open>
  A first update without an id on a cell whose attributes are not those of entry 0: the
  cell gets the text and keeps its attributes.
\<close>

lemma first_update_keeps_highlight:
  "grid_line 1 0 0 [MArr [MStr ''a'']]
       (sample_controller\<lparr>grid0 := sample_grid\<lparr>cells :=
           [\<lparr>cell_text = '' '', attrs = plain_attrs\<rparr>, sample_cell, sample_cell, sample_cell]\<rparr>\<rparr>)
     = Inr (sample_controller\<lparr>grid0 := sample_grid\<lparr>cells :=
           [\<lparr>cell_text = ''a'', attrs = plain_attrs\<rparr>, sample_cell, sample_cell, sample_cell]\<rparr>\<rparr>)"
  by (simp add: grid_line_def get_grid_def grid_line_step_def cell_update_set_def
        line_start_def cell_update_init_def write_run_def written_cell_def emit_def
        sample_grid_def sample_controller_def)

text \<open>
  The counter \<open>remaining\<close> and the position move together, so that the counter is the
  number of cells left in the row, as long as no update with empty text arrives when the
  counter is 0.
\<close>

lemma grid_line_step_counter:
  assumes "grid_line_step table rb object st = Inl st'"
      and "ls_remaining st < 2 ^ 64"
      and "0 < ls_remaining st \<or> update_text (ls_update st') \<noteq> []"
  shows "ls_cell st' + ls_remaining st' = ls_cell st + ls_remaining st
       \<and> ls_remaining st' < 2 ^ 64"
proof -
  from assms(1) obtain u where
    u: "cell_update_set object table (ls_update st) = Some u" and le: "repeat u \<le> ls_remaining st"
    by (auto simp: grid_line_step_def Let_def split: option.splits if_splits)
  show ?thesis
  proof (cases "update_text u = []")
    case True
    with assms(1) u le have st': "ls_cell st' = ls_cell st + 1"
        "ls_remaining st' = (ls_remaining st + (2 ^ 64 - 1)) mod 2 ^ 64" "ls_update st' = u"
      by (auto simp: grid_line_step_def Let_def split: if_splits)
    with True assms(3) have pos: "0 < ls_remaining st" by simp
    have "(ls_remaining st + (2 ^ 64 - 1)) mod 2 ^ 64 = ls_remaining st - 1"
    proof -
      have "ls_remaining st + (2 ^ 64 - 1) = (ls_remaining st - 1) + 1 * 2 ^ 64"
        using pos by simp
      moreover have "ls_remaining st - 1 < 2 ^ 64"
        using assms(2) by simp
      ultimately show ?thesis
        by (metis mod_less mod_mult_self1)
    qed
    with st' pos assms(2) show ?thesis by simp
  next
    case False
    with assms(1) u le have "ls_cell st' = ls_cell st + repeat u"
        "ls_remaining st' = ls_remaining st - repeat u"
      by (auto simp: grid_line_step_def Let_def split: if_splits)
    with le assms(2) show ?thesis by simp
  qed
qed

text \<open>
  When the repeat count of an update exceeds the counter \<open>remaining\<close>, the handler
  returns with the cells as the earlier updates left them.
\<close>

lemma grid_line_overflow:
  assumes "grid_line_steps table rb pre st0 = Inl st"
      and "cell_update_set object table (ls_update st) = Some u"
      and "ls_remaining st < repeat u"
  shows "grid_line_loop table rb (pre @ object # post) st0
           = Done (ls_cells st) [Log_error ''Redraw error: Row overflow'']"
  using assms by (simp add: grid_line_loop_steps grid_line_step_def)

text \<open>
  C7. An update whose repeat count exceeds the remaining width of the row should stop the
  event. The counter \<open>remaining\<close> is decremented by one for an update with empty text
  whatever its repeat count is: on a grid two cells wide, after two cells are written at
  row 0, the update \<open>["", 0, 0]\<close> passes the test (0 does not exceed 0), writes the
  attributes of the first cell of row 1 and takes the counter from 0 to \<open>2 ^ 64 - 1\<close>.
  The update \<open>["c"]\<close> after it, with nothing left of row 0, is not stopped: it writes
  the second cell of row 1, and nothing is logged.
\<close>

theorem grid_line_counter_wraps:
  "grid_line_steps [sample_attrs] 0
       [MArr [MStr ''a'', MInt 0], MArr [MStr ''b''], MArr [MStr [], MInt 0, MInt 0]]
       (line_start sample_grid 0 0)
     = Inl \<lparr>ls_cells = [\<lparr>cell_text = ''a'', attrs = sample_attrs\<rparr>,
                        \<lparr>cell_text = ''b'', attrs = sample_attrs\<lparr>flags := {doublewidth}\<rparr>\<rparr>,
                        sample_cell, sample_cell],
            ls_cell = 3, ls_remaining = 2 ^ 64 - 1,
            ls_update = \<lparr>update_text = [], hlattr = Some sample_attrs, repeat = 0\<rparr>\<rparr>
   \<and> grid_line 1 0 0
       [MArr [MStr ''a'', MInt 0], MArr [MStr ''b''], MArr [MStr [], MInt 0, MInt 0],
        MArr [MStr ''c'']]
       sample_controller
     = Inr (sample_controller\<lparr>grid0 := sample_grid\<lparr>cells :=
              [\<lparr>cell_text = ''a'', attrs = sample_attrs\<rparr>,
               \<lparr>cell_text = ''b'', attrs = sample_attrs\<lparr>flags := {doublewidth}\<rparr>\<rparr>,
               sample_cell,
               \<lparr>cell_text = ''c'', attrs = sample_attrs\<rparr>]\<rparr>\<rparr>)"
  by (simp add: grid_line_def get_grid_def grid_line_step_def cell_update_set_def line_start_def
        cell_update_init_def hl_get_entry_def as_size_t_def write_run_def written_cell_def
        emit_def sample_grid_def sample_controller_def sample_cell_def sample_attrs_def)

section \<open>Font list\<close>

lemma digit_suffix_snoc:
  "digit_suffix (xs @ [ch]) = (if isdigit ch then digit_suffix xs @ [ch] else [])"
  by (simp add: digit_suffix_def)

lemma decimal_snoc: "decimal (ds @ [ch]) = 10 * decimal ds + digit_value ch"
  by (simp add: decimal_def)

lemma length_digit_suffix: "length (digit_suffix f) \<le> length f"
  using length_takeWhile_le [of isdigit "rev f"] by (simp add: digit_suffix_def)

lemma font_size_loop_eq:
  "n \<le> length s \<Longrightarrow>
     font_size_loop s n m sz
       = (n - Suc (length (digit_suffix (take n s))),
          sz + m * of_nat (decimal (digit_suffix (take n s))))"
proof (induction n arbitrary: m sz)
  case 0
  show ?case by (simp add: digit_suffix_def decimal_def)
next
  case (Suc n)
  then have n: "n < length s" by simp
  have t: "take (Suc n) s = take n s @ [s ! n]"
    using n by (simp add: take_Suc_conv_app_nth)
  show ?case
  proof (cases "isdigit (s ! n)")
    case True
    with Suc.IH [of "m * 10" "sz + m * of_nat (digit_value (s ! n))"] n show ?thesis
      by (simp add: t digit_suffix_snoc decimal_snoc algebra_simps)
  next
    case False
    then show ?thesis
      by (simp add: t digit_suffix_snoc decimal_def)
  qed
qed

lemma word64_unat_of_nat:
  "n < 2 ^ 64 \<Longrightarrow> unat (of_nat n :: 64 word) = n"
  by (simp add: unat_of_nat)

lemma word64_of_nat_zero:
  "n < 2 ^ 64 \<Longrightarrow> (of_nat n :: 64 word) = 0 \<longleftrightarrow> n = 0"
  using of_nat_neq_0 [of n, where 'a = 64] by auto


lemma drop_last_two:
  assumes "2 \<le> length xs"
  shows "drop (length xs - 2) xs = [xs ! (length xs - 2), xs ! (length xs - 1)]"
proof -
  have a: "drop (length xs - 2) xs = xs ! (length xs - 2) # drop (Suc (length xs - 2)) xs"
    using assms by (intro Cons_nth_drop_Suc [symmetric]) simp
  have b: "drop (length xs - 1) xs = xs ! (length xs - 1) # drop (Suc (length xs - 1)) xs"
    using assms by (intro Cons_nth_drop_Suc [symmetric]) simp
  have c: "Suc (length xs - 2) = length xs - 1"
    using assms by simp
  have d: "drop (Suc (length xs - 1)) xs = []"
    by simp
  show ?thesis
    unfolding a c b d ..
qed

lemma make_font_eq:
  assumes "has_size_suffix f \<longrightarrow> decimal (digit_suffix f) < 2 ^ 64"
  shows "make_font f d = font_of_field d f"
proof -
  define ds where "ds = digit_suffix f"
  define stem where "stem = take (length f - length ds) f"
  have k: "length ds \<le> length f"
    by (simp add: ds_def length_digit_suffix)
  have len_stem: "length stem = length f - length ds"
    by (simp add: stem_def)
  have loop: "font_size_loop f (length f) 1 0 = (length stem - 1, of_nat (decimal ds))"
    using font_size_loop_eq [of "length f" f 1 0] by (simp add: ds_def len_stem)
  have suffix: "has_size_suffix f \<longleftrightarrow> drop (length stem - 2) stem = '':h''"
    by (simp add: has_size_suffix_def ds_def stem_def Let_def)
  have spec: "font_of_field d f
                = (if decimal ds \<noteq> 0 \<and> drop (length stem - 2) stem = '':h''
                   then \<lparr>font_name = take (length stem - 2) stem, font_size = double_of_size_t (decimal ds)\<rparr>
                   else \<lparr>font_name = f, font_size = d\<rparr>)"
    by (simp add: font_of_field_def ds_def stem_def Let_def)
  have code: "make_font f d
                = (if (of_nat (decimal ds) :: 64 word) \<noteq> 0
                      \<and> (length stem - 1 \<noteq> 0 \<and> f ! (length stem - 1) = CHR ''h''
                         \<and> f ! (length stem - 1 - 1) = CHR '':'')
                   then \<lparr>font_name = substr f 0 (length stem - 1 - 1),
                          font_size = double_of_size_t (unat (of_nat (decimal ds) :: 64 word))\<rparr>
                   else \<lparr>font_name = f, font_size = d\<rparr>)"
    by (simp add: make_font_def loop Let_def)
  have test: "(length stem - 1 \<noteq> 0 \<and> f ! (length stem - 1) = CHR ''h''
                \<and> f ! (length stem - 1 - 1) = CHR '':'')
              \<longleftrightarrow> drop (length stem - 2) stem = '':h''"
  proof (cases "2 \<le> length stem")
    case True
    have a: "f ! (length stem - 1) = stem ! (length stem - 1)"
      using True by (simp add: stem_def)
    have b: "f ! (length stem - 1 - 1) = stem ! (length stem - 2)"
      using True by (simp add: stem_def)
    have c: "drop (length stem - 2) stem = [stem ! (length stem - 2), stem ! (length stem - 1)]"
      using True by (rule drop_last_two)
    have nzero: "length stem - 1 \<noteq> 0"
      using True by simp
    show ?thesis
      unfolding a b c using nzero by auto
  next
    case False
    then have "length stem - 1 = 0" and "drop (length stem - 2) stem = stem"
      by simp_all
    moreover have "stem \<noteq> '':h''"
      using False by auto
    ultimately show ?thesis
      by simp
  qed
  have name: "substr f 0 (length stem - 1 - 1) = take (length stem - 2) stem"
  proof -
    have "take (length stem - 2) (take (length stem) f) = take (length stem - 2) f"
      by (simp add: min_def)
    moreover have "take (length stem) f = stem"
      using k by (simp add: stem_def)
    moreover have "length stem - 1 - 1 = length stem - 2"
      by simp
    ultimately show ?thesis
      by (simp add: substr_def)
  qed
  show ?thesis
  proof (cases "has_size_suffix f")
    case True
    with assms have small: "decimal ds < 2 ^ 64"
      by (simp add: ds_def)
    have nz: "(of_nat (decimal ds) :: 64 word) \<noteq> 0 \<longleftrightarrow> decimal ds \<noteq> 0"
      using small by (simp add: word64_of_nat_zero)
    have un: "unat (of_nat (decimal ds) :: 64 word) = decimal ds"
      using small by (simp add: word64_unat_of_nat)
    show ?thesis
      unfolding code spec test name nz un ..
  next
    case False
    then show ?thesis
      unfolding code spec test using suffix by simp
  qed
qed

lemma make_font_rounds:
  "make_font ''F:h9007199254740993'' 13 = \<lparr>font_name = ''F'', font_size = 9007199254740992\<rparr>"
  by (simp add: make_font_def substr_def isdigit_def digit_value_def
        double_of_size_t_def excess_bits.simps)

lemma sv_find_step:
  "sv_find s ch i
     = (if i < length s then (if s ! i = ch then Some i else sv_find s ch (Suc i)) else None)"
proof (cases "i < length s")
  case True
  then have "drop i s = s ! i # drop (Suc i) s"
    by (simp add: Cons_nth_drop_Suc)
  with True show ?thesis
    by (simp add: sv_find_def option.map_comp comp_def)
next
  case False
  then show ?thesis by (simp add: sv_find_def)
qed

lemma find_unescaped_comma_step:
  "find_unescaped_comma s i
     = (if i < length s
        then (if s ! i = CHR '','' \<and> i \<noteq> 0 \<and> s ! (i - 1) \<noteq> CHR 0x5C then Some i
              else find_unescaped_comma s (Suc i))
        else None)"
proof (cases "i < length s")
  case False
  then have "sv_find s CHR '','' i = None"
    by (subst sv_find_step) simp
  with False show ?thesis
    by (simp add: find_unescaped_comma.simps [of s i])
next
  case True
  show ?thesis
  proof (cases "s ! i = CHR '',''")
    case comma: True
    with True have "sv_find s CHR '','' i = Some i"
      by (subst sv_find_step) simp
    with True comma show ?thesis
      by (simp add: find_unescaped_comma.simps [of s i])
  next
    case other: False
    with True have "sv_find s CHR '','' i = sv_find s CHR '','' (Suc i)"
      by (subst sv_find_step) simp
    then have "find_unescaped_comma s i = find_unescaped_comma s (Suc i)"
      by (simp add: find_unescaped_comma.simps [of s i] find_unescaped_comma.simps [of s "Suc i"])
    with True other show ?thesis by simp
  qed
qed

lemma find_unescaped_comma_is_comma:
  "find_unescaped_comma s i = Some p \<Longrightarrow> s ! p = CHR '',''"
proof (induction "length s - i" arbitrary: i)
  case 0
  then show ?case
    by (subst (asm) find_unescaped_comma_step) simp
next
  case (Suc n)
  from Suc.prems Suc.hyps(2) Suc.hyps(1) [of "Suc i"] show ?case
    by (subst (asm) find_unescaped_comma_step) (auto split: if_splits)
qed

lemma font_fields_scan:
  "i \<le> length s \<Longrightarrow>
     font_fields (escaped_at s i) field (drop i s)
       = (case find_unescaped_comma s i of
            None \<Rightarrow> [field @ drop i s]
          | Some p \<Rightarrow>
              (field @ substr s i (p - i))
              # font_fields False [] (dropWhile (\<lambda>x. x = CHR '' '') (drop (Suc p) s)))"
proof (induction "length s - i" arbitrary: i field)
  case 0
  then have "i = length s" by simp
  then show ?case
    by (subst find_unescaped_comma_step) simp
next
  case (Suc n)
  then have i: "i < length s" by simp
  then have d: "drop i s = s ! i # drop (Suc i) s"
    by (simp add: Cons_nth_drop_Suc)
  show ?case
  proof (cases "s ! i = CHR '','' \<and> \<not> escaped_at s i")
    case True
    then have "find_unescaped_comma s i = Some i"
      using i by (subst find_unescaped_comma_step) (simp add: escaped_at_def)
    with True show ?thesis
      by (simp add: d substr_def)
  next
    case False
    have e: "escaped_at s (Suc i) = (s ! i = CHR 0x5C)"
      by (simp add: escaped_at_def)
    have f: "find_unescaped_comma s i = find_unescaped_comma s (Suc i)"
      using i False by (subst find_unescaped_comma_step) (auto simp: escaped_at_def)
    have ih: "font_fields (escaped_at s (Suc i)) (field @ [s ! i]) (drop (Suc i) s)
                = (case find_unescaped_comma s (Suc i) of
                     None \<Rightarrow> [(field @ [s ! i]) @ drop (Suc i) s]
                   | Some p \<Rightarrow>
                       ((field @ [s ! i]) @ substr s (Suc i) (p - Suc i))
                       # font_fields False [] (dropWhile (\<lambda>x. x = CHR '' '') (drop (Suc p) s)))"
      using Suc.hyps(2) i by (intro Suc.hyps(1)) simp_all
    have step: "font_fields (escaped_at s i) field (drop i s)
                  = font_fields (escaped_at s (Suc i)) (field @ [s ! i]) (drop (Suc i) s)"
      using False by (auto simp: d e)
    show ?thesis
    proof (cases "find_unescaped_comma s (Suc i)")
      case None
      with step ih f show ?thesis by (simp add: d)
    next
      case (Some p)
      then have "Suc i \<le> p"
        using find_unescaped_comma_bounds by blast
      then have "p - i = Suc (p - Suc i)" by simp
      then have "substr s i (p - i) = s ! i # substr s (Suc i) (p - Suc i)"
        by (simp add: substr_def d)
      with step ih f Some show ?thesis by simp
    qed
  qed
qed


lemma first_index_takeWhile:
  "first_index P xs
     = (if dropWhile (\<lambda>x. \<not> P x) xs = [] then None
        else Some (length (takeWhile (\<lambda>x. \<not> P x) xs)))"
  by (induction xs) simp_all

lemma sv_find_first_not_of_eq:
  "sv_find_first_not_of s ch j
     = (if dropWhile (\<lambda>x. x = ch) (drop j s) = [] then None
        else Some (j + length (takeWhile (\<lambda>x. x = ch) (drop j s))))"
  by (simp add: sv_find_first_not_of_def first_index_takeWhile)

lemma drop_to_dropWhile:
  "drop (j + length (takeWhile P (drop j s))) s = dropWhile P (drop j s)"
  by (simp add: dropWhile_eq_drop add.commute)

lemma not_escaped_after_spaces:
  assumes "s ! p = CHR '',''" and "dropWhile (\<lambda>x. x = CHR '' '') (drop (Suc p) s) \<noteq> []"
  shows "\<not> escaped_at s (Suc p + length (takeWhile (\<lambda>x. x = CHR '' '') (drop (Suc p) s)))"
proof (cases "takeWhile (\<lambda>x. x = CHR '' '') (drop (Suc p) s) = []")
  case True
  with assms(1) show ?thesis by (simp add: escaped_at_def)
next
  case False
  let ?tw = "takeWhile (\<lambda>x. x = CHR '' '') (drop (Suc p) s)"
  obtain k where ltw: "length ?tw = Suc k"
    using False by (cases ?tw) auto
  have "?tw ! k \<in> set ?tw"
    using ltw by (intro nth_mem) simp
  then have sp: "?tw ! k = CHR '' ''"
    by (auto dest: set_takeWhileD)
  have "?tw ! k = drop (Suc p) s ! k"
    using ltw by (intro takeWhile_nth) simp
  also have "\<dots> = s ! (Suc p + k)"
  proof (rule nth_drop)
    show "Suc p \<le> length s"
      using False by (cases "Suc p \<le> length s") auto
  qed
  finally have "s ! (Suc p + k) = CHR '' ''"
    using sp by simp
  then show ?thesis
    by (simp add: escaped_at_def ltw)
qed

lemma trailing_separator_scan:
  "i \<le> length s \<Longrightarrow>
     trailing_separator (escaped_at s i) (drop i s)
       = (case find_unescaped_comma s i of
            None \<Rightarrow> False
          | Some p \<Rightarrow>
              dropWhile (\<lambda>x. x = CHR '' '') (drop (Suc p) s) = []
              \<or> trailing_separator False (dropWhile (\<lambda>x. x = CHR '' '') (drop (Suc p) s)))"
proof (induction "length s - i" arbitrary: i)
  case 0
  then have "i = length s" by simp
  then show ?case
    by (subst find_unescaped_comma_step) simp
next
  case (Suc n)
  then have i: "i < length s" by simp
  then have d: "drop i s = s ! i # drop (Suc i) s"
    by (simp add: Cons_nth_drop_Suc)
  show ?case
  proof (cases "s ! i = CHR '','' \<and> \<not> escaped_at s i")
    case True
    then have "find_unescaped_comma s i = Some i"
      using i by (subst find_unescaped_comma_step) (simp add: escaped_at_def)
    with True show ?thesis
      by (simp add: d)
  next
    case False
    have e: "escaped_at s (Suc i) = (s ! i = CHR 0x5C)"
      by (simp add: escaped_at_def)
    have f: "find_unescaped_comma s i = find_unescaped_comma s (Suc i)"
      using i False by (subst find_unescaped_comma_step) (auto simp: escaped_at_def)
    have ih: "trailing_separator (escaped_at s (Suc i)) (drop (Suc i) s)
                = (case find_unescaped_comma s (Suc i) of
                     None \<Rightarrow> False
                   | Some p \<Rightarrow>
                       dropWhile (\<lambda>x. x = CHR '' '') (drop (Suc p) s) = []
                       \<or> trailing_separator False
                            (dropWhile (\<lambda>x. x = CHR '' '') (drop (Suc p) s)))"
      using Suc.hyps(2) i by (intro Suc.hyps(1)) simp_all
    have step: "trailing_separator (escaped_at s i) (drop i s)
                  = trailing_separator (escaped_at s (Suc i)) (drop (Suc i) s)"
      using False by (auto simp: d e)
    show ?thesis
      unfolding step ih f ..
  qed
qed

lemma get_fonts_loop_fields:
  "i \<le> length s \<Longrightarrow>
     get_fonts_loop s d (Some i) acc
       = (if trailing_separator (escaped_at s i) (drop i s) then Inl Out_of_range
          else Inr (acc @ map (\<lambda>f. make_font f d) (font_fields (escaped_at s i) [] (drop i s))))"
proof (induction "length s - i" arbitrary: i acc rule: less_induct)
  case less
  note scan = font_fields_scan [OF less.prems, of "[]"]
  note tscan = trailing_separator_scan [OF less.prems]
  show ?case
  proof (cases "find_unescaped_comma s i")
    case None
    with scan tscan less.prems show ?thesis
      by (simp add: get_fonts_loop.simps [of s d "Some i" acc])
  next
    case (Some p)
    note b = find_unescaped_comma_bounds [OF Some]
    note comma = find_unescaped_comma_is_comma [OF Some]
    let ?tw = "takeWhile (\<lambda>x. x = CHR '' '') (drop (Suc p) s)"
    let ?i' = "Suc p + length ?tw"
    show ?thesis
    proof (cases "dropWhile (\<lambda>x. x = CHR '' '') (drop (Suc p) s) = []")
      case True
      then have "sv_find_first_not_of s CHR '' '' (p + 1) = None"
        by (simp add: sv_find_first_not_of_eq)
      then have "get_fonts_loop s d (Some i) acc = Inl Out_of_range"
        using Some
        by (simp add: get_fonts_loop.simps [of s d "Some i" acc]
              get_fonts_loop.simps [of s d None])
      with True tscan Some show ?thesis by simp
    next
      case ne: False
      have next_index: "sv_find_first_not_of s CHR '' '' (p + 1) = Some ?i'"
        using ne by (simp add: sv_find_first_not_of_eq)
      have rest: "drop ?i' s = dropWhile (\<lambda>x. x = CHR '' '') (drop (Suc p) s)"
        by (rule drop_to_dropWhile)
      have i': "?i' < length s"
        using ne rest by (metis drop_eq_Nil not_le_imp_less)
      have esc: "\<not> escaped_at s ?i'"
        using comma ne by (rule not_escaped_after_spaces)
      have ih: "get_fonts_loop s d (Some ?i') (acc @ [make_font (substr s i (p - i)) d])
                  = (if trailing_separator (escaped_at s ?i') (drop ?i' s) then Inl Out_of_range
                     else Inr ((acc @ [make_font (substr s i (p - i)) d])
                         @ map (\<lambda>f. make_font f d)
                             (font_fields (escaped_at s ?i') [] (drop ?i' s))))"
        using b i' by (intro less.hyps) simp_all
      have "get_fonts_loop s d (Some i) acc
              = get_fonts_loop s d (Some ?i') (acc @ [make_font (substr s i (p - i)) d])"
        using Some next_index by (simp add: get_fonts_loop.simps [of s d "Some i" acc])
      with ih esc rest scan tscan Some ne show ?thesis
        by simp
    qed
  qed
qed

lemma get_fonts_by_fields:
  assumes "option_guifont c \<noteq> []"
  shows "get_fonts d c
           = (if trailing_separator True (option_guifont c) then Inl Out_of_range
              else Inr (map (\<lambda>f. make_font f d) (font_fields True [] (option_guifont c))))"
  using get_fonts_loop_fields [of 0 "option_guifont c" d "[]"] assms
  by (simp add: get_fonts_def escaped_at_def)

lemma font_fields_start:
  "s \<noteq> [] \<Longrightarrow> hd s \<noteq> CHR '','' \<Longrightarrow> font_fields True [] s = font_fields False [] s"
  by (cases s) simp_all

lemma trailing_separator_start:
  "s \<noteq> [] \<Longrightarrow> hd s \<noteq> CHR '','' \<Longrightarrow> trailing_separator True s = trailing_separator False s"
  by (cases s) simp_all

text \<open>
  The conversion to a double keeps a size of at most 53 bits and rounds
  \<open>2 ^ 53 + 1\<close> down to \<open>2 ^ 53\<close>.
\<close>

lemma double_of_size_t_exact: "n < 2 ^ 53 \<Longrightarrow> double_of_size_t n = real n"
  by (simp add: double_of_size_t_def excess_bits.simps [of n])

lemma double_of_size_t_rounds: "double_of_size_t 9007199254740993 = 9007199254740992"
  by (simp add: double_of_size_t_def excess_bits.simps)

text \<open>
  C9, as the code has it. For a stored font list that does not begin with a comma, does
  not end after a comma that ends a field (with nothing but spaces behind it) and has no
  size suffix of \<open>2 ^ 64\<close> or more, \<open>get_fonts\<close> returns no font when the list is empty
  and otherwise the fonts of the fields of the list: the list is split at the commas not
  preceded by a backslash, all the spaces after such a comma are skipped (nothing is taken
  off the first field), and a field that ends in \<open>:h\<close> and digits of a non-zero number
  gives the family before \<open>:h\<close> at that size, converted to a double, every other field
  the whole field at the default size.
\<close>

theorem get_fonts_fields:
  assumes "take 1 (option_guifont c) \<noteq> '',''"
      and "\<not> trailing_separator False (option_guifont c)"
      and "\<forall>f \<in> set (font_fields False [] (option_guifont c)).
             has_size_suffix f \<longrightarrow> decimal (digit_suffix f) < 2 ^ 64"
  shows "get_fonts d c
           = Inr (if option_guifont c = [] then []
                  else map (font_of_field d) (font_fields False [] (option_guifont c)))"
proof (cases "option_guifont c = []")
  case True
  then show ?thesis
    by (simp add: get_fonts_def)
next
  case False
  then have hd: "hd (option_guifont c) \<noteq> CHR '',''"
    using assms(1) by (cases "option_guifont c") simp_all
  have "get_fonts d c
          = Inr (map (\<lambda>f. make_font f d) (font_fields False [] (option_guifont c)))"
    using get_fonts_by_fields [OF False] font_fields_start [OF False hd]
      trailing_separator_start [OF False hd] assms(2)
    by simp
  moreover have "map (\<lambda>f. make_font f d) (font_fields False [] (option_guifont c))
                   = map (font_of_field d) (font_fields False [] (option_guifont c))"
    using assms(3) by (intro map_cong refl make_font_eq) simp
  ultimately show ?thesis
    using False by simp
qed

text \<open>The scenario of the specification: \<open>Menlo:h14, Courier\<close> at the default size 13.\<close>

theorem get_fonts_fields_witness:
  "take 1 ''Menlo:h14, Courier'' \<noteq> '',''
   \<and> \<not> trailing_separator False ''Menlo:h14, Courier''
   \<and> font_fields False [] ''Menlo:h14, Courier'' = [''Menlo:h14'', ''Courier'']
   \<and> decimal (digit_suffix ''Menlo:h14'') = 14
   \<and> decimal (digit_suffix ''Courier'') = 0
   \<and> get_fonts 13 (sample_controller\<lparr>option_guifont := ''Menlo:h14, Courier''\<rparr>)
       = Inr [\<lparr>font_name = ''Menlo'', font_size = 14\<rparr>,
              \<lparr>font_name = ''Courier'', font_size = 13\<rparr>]"
  using get_fonts_fields [of "sample_controller\<lparr>option_guifont := ''Menlo:h14, Courier''\<rparr>" 13]
  by (simp add: font_of_field_def digit_suffix_def decimal_def isdigit_def digit_value_def
        double_of_size_t_exact)

text \<open>
  C9, as stated, fails. Of the two spaces after the comma in \<open>A,  B\<close> the parser of the
  specification takes one and leaves the family \<open> B\<close>, \<open>get_fonts\<close> skips both; the
  parser of the specification takes the leading space off the only field of \<open> A\<close>,
  \<open>get_fonts\<close> keeps it; it strips the suffix of \<open>A:h0\<close> and gives the size 0,
  \<open>get_fonts\<close> keeps the whole field at the default size; it gives one font of the empty
  family for the empty list, \<open>get_fonts\<close> gives none; and it gives the size
  9007199254740993 where the double of \<open>get_fonts\<close> is 9007199254740992.
\<close>

theorem get_fonts_differs_from_spec:
  "get_fonts 13 (sample_controller\<lparr>option_guifont := ''A,  B''\<rparr>)
     = Inr [\<lparr>font_name = ''A'', font_size = 13\<rparr>, \<lparr>font_name = ''B'', font_size = 13\<rparr>]
   \<and> spec_parse_font_list ''A,  B'' 13
     = [\<lparr>font_name = ''A'', font_size = 13\<rparr>, \<lparr>font_name = '' B'', font_size = 13\<rparr>]
   \<and> get_fonts 13 (sample_controller\<lparr>option_guifont := '' A''\<rparr>)
     = Inr [\<lparr>font_name = '' A'', font_size = 13\<rparr>]
   \<and> spec_parse_font_list '' A'' 13 = [\<lparr>font_name = ''A'', font_size = 13\<rparr>]
   \<and> get_fonts 13 (sample_controller\<lparr>option_guifont := ''A:h0''\<rparr>)
     = Inr [\<lparr>font_name = ''A:h0'', font_size = 13\<rparr>]
   \<and> spec_parse_font_list ''A:h0'' 13 = [\<lparr>font_name = ''A'', font_size = 0\<rparr>]
   \<and> get_fonts 13 (sample_controller\<lparr>option_guifont := []\<rparr>) = Inr []
   \<and> spec_parse_font_list [] 13 = [\<lparr>font_name = [], font_size = 13\<rparr>]
   \<and> get_fonts 13 (sample_controller\<lparr>option_guifont := ''F:h9007199254740993''\<rparr>)
     = Inr [\<lparr>font_name = ''F'', font_size = 9007199254740992\<rparr>]
   \<and> spec_parse_font_list ''F:h9007199254740993'' 13
     = [\<lparr>font_name = ''F'', font_size = 9007199254740993\<rparr>]"
proof -
  have a: "get_fonts 13 (sample_controller\<lparr>option_guifont := ''A,  B''\<rparr>)
     = Inr [\<lparr>font_name = ''A'', font_size = 13\<rparr>, \<lparr>font_name = ''B'', font_size = 13\<rparr>]"
    using get_fonts_by_fields [of "sample_controller\<lparr>option_guifont := ''A,  B''\<rparr>" 13]
    by (simp add: make_font_def substr_def isdigit_def)
  have b: "get_fonts 13 (sample_controller\<lparr>option_guifont := '' A''\<rparr>)
     = Inr [\<lparr>font_name = '' A'', font_size = 13\<rparr>]"
    using get_fonts_by_fields [of "sample_controller\<lparr>option_guifont := '' A''\<rparr>" 13]
    by (simp add: make_font_def substr_def isdigit_def)
  have c: "get_fonts 13 (sample_controller\<lparr>option_guifont := ''A:h0''\<rparr>)
     = Inr [\<lparr>font_name = ''A:h0'', font_size = 13\<rparr>]"
    using get_fonts_by_fields [of "sample_controller\<lparr>option_guifont := ''A:h0''\<rparr>" 13]
    by (simp add: make_font_def substr_def isdigit_def digit_value_def)
  have d: "get_fonts 13 (sample_controller\<lparr>option_guifont := []\<rparr>) = Inr []"
    by (simp add: get_fonts_def)
  have r: "get_fonts 13 (sample_controller\<lparr>option_guifont := ''F:h9007199254740993''\<rparr>)
     = Inr [\<lparr>font_name = ''F'', font_size = 9007199254740992\<rparr>]"
    using get_fonts_by_fields [of "sample_controller\<lparr>option_guifont := ''F:h9007199254740993''\<rparr>" 13]
    by (simp add: make_font_def substr_def isdigit_def digit_value_def
          double_of_size_t_def excess_bits.simps)
  have e: "spec_parse_font_list ''A,  B'' 13
     = [\<lparr>font_name = ''A'', font_size = 13\<rparr>, \<lparr>font_name = '' B'', font_size = 13\<rparr>]"
      "spec_parse_font_list '' A'' 13 = [\<lparr>font_name = ''A'', font_size = 13\<rparr>]"
      "spec_parse_font_list ''A:h0'' 13 = [\<lparr>font_name = ''A'', font_size = 0\<rparr>]"
      "spec_parse_font_list [] 13 = [\<lparr>font_name = [], font_size = 13\<rparr>]"
      "spec_parse_font_list ''F:h9007199254740993'' 13
         = [\<lparr>font_name = ''F'', font_size = 9007199254740993\<rparr>]"
    by (simp_all add: spec_parse_font_list_def spec_font_def spec_trim_def
          digit_suffix_def decimal_def isdigit_def digit_value_def)
  from a b c d e r show ?thesis by simp
qed

section \<open>The invariant of the controller\<close>

text \<open>
  Every event keeps the default entry in the highlight table and keeps the writing and the
  complete pointer apart; \<open>flush\<close> exchanges the two pointers.
\<close>

lemma assign_fields [simp]:
  "hltable (assign p g c) = hltable c"
  "writing (assign p g c) = writing c"
  "complete (assign p g c) = complete c"
  by (cases p; simp)+

lemma well_formed_assign [simp]: "well_formed (assign p g c) = well_formed c"
  by (cases p) (simp_all add: well_formed_def)

lemma well_formed_emit [simp]: "well_formed (emit es c) = well_formed c"
  by (simp add: well_formed_def emit_def)

lemma hl_new_entry_nonempty: "table \<noteq> [] \<Longrightarrow> fst (hl_new_entry table hlid) \<noteq> []"
  by (simp add: hl_new_entry_def Let_def)

lemma well_formed_hl_attr_define:
  "well_formed c \<Longrightarrow> well_formed (hl_attr_define hlid m c)"
  using hl_new_entry_nonempty [of "hltable c" hlid]
  by (simp add: well_formed_def hl_attr_define_def hl_define_def emit_def Let_def)

lemma well_formed_default_colors_set:
  "well_formed c \<Longrightarrow> well_formed (default_colors_set fg bg sp c)"
  by (simp add: well_formed_def default_colors_set_unfold)

lemma well_formed_flush: "well_formed c \<Longrightarrow> well_formed (flush c)"
  by (cases "writing c"; cases "complete c")
     (auto simp: well_formed_def flush_def emit_def Let_def)

lemma well_formed_mode_info_set: "well_formed c \<Longrightarrow> well_formed (mode_info_set H e ms c)"
proof -
  have "well_formed (fold (mode_info_push H) ms c') = well_formed c'" for c'
    by (induction ms arbitrary: c')
       (simp_all add: mode_info_push_def well_formed_def emit_def Let_def split: msg_object.splits)
  from this [of "c\<lparr>mode_info_table := [], current_mode := 0\<rparr>"]
  show "well_formed c \<Longrightarrow> well_formed (mode_info_set H e ms c)"
    by (simp add: mode_info_set_def well_formed_def)
qed

lemma well_formed_mode_change: "well_formed c \<Longrightarrow> well_formed (mode_change n i c)"
  by (simp add: mode_change_def)

lemma well_formed_set_title: "well_formed c \<Longrightarrow> well_formed (set_title t c)"
  by (simp add: set_title_def well_formed_def emit_def)

lemma well_formed_set_option: "well_formed c \<Longrightarrow> well_formed (set_option n v c)"
  by (simp add: set_option_def set_font_option_def set_ext_option_def well_formed_def emit_def
        split: msg_object.splits)

lemma well_formed_grid_line:
  "grid_line g r k cs c = Inr c' \<Longrightarrow> well_formed c \<Longrightarrow> well_formed c'"
  by (auto simp: grid_line_def Let_def split: sum.splits if_splits line_result.splits)

lemma well_formed_grid_resize:
  "grid_resize H g w h c = Inr c' \<Longrightarrow> well_formed c \<Longrightarrow> well_formed c'"
  by (auto simp: grid_resize_def split: sum.splits)

lemma well_formed_grid_clear:
  "grid_clear H g c = Inr c' \<Longrightarrow> well_formed c \<Longrightarrow> well_formed c'"
  by (auto simp: grid_clear_def Let_def split: sum.splits)

lemma well_formed_grid_cursor_goto:
  "grid_cursor_goto g r k c = Inr c' \<Longrightarrow> well_formed c \<Longrightarrow> well_formed c'"
  by (auto simp: grid_cursor_goto_def Let_def split: sum.splits if_splits)

lemma well_formed_grid_scroll:
  "grid_scroll g t b l r n c = Inr c' \<Longrightarrow> well_formed c \<Longrightarrow> well_formed c'"
  by (auto simp: grid_scroll_def Let_def split: sum.splits if_splits option.splits)

lemmas well_formed_handlers =
  well_formed_hl_attr_define well_formed_default_colors_set well_formed_flush
  well_formed_mode_info_set well_formed_mode_change well_formed_set_title well_formed_set_option
  well_formed_grid_line well_formed_grid_resize well_formed_grid_clear
  well_formed_grid_cursor_goto well_formed_grid_scroll

lemma well_formed_call:
  "call H h args c = Inr c' \<Longrightarrow> well_formed c \<Longrightarrow> well_formed c'"
  by (cases h)
     (auto simp: call_def intro: well_formed_handlers split: list.splits msg_object.splits)

lemma well_formed_apply_one:
  "apply_one H h name obj c = Inr c' \<Longrightarrow> well_formed c \<Longrightarrow> well_formed c'"
  by (auto simp: apply_one_def intro: well_formed_call split: if_splits msg_object.splits)

lemma well_formed_apply_tuples:
  "apply_tuples H h name tuples c = Inr c' \<Longrightarrow> well_formed c \<Longrightarrow> well_formed c'"
  by (induction tuples arbitrary: c) (auto intro: well_formed_apply_one split: sum.splits)

lemma well_formed_redraw_event:
  "redraw_event H ev c = Inr c' \<Longrightarrow> well_formed c \<Longrightarrow> well_formed c'"
  by (auto simp: redraw_event_def intro: well_formed_apply_tuples
        split: msg_object.splits list.splits if_splits sum.splits)

lemma well_formed_redraw:
  "redraw H events c = Inr c' \<Longrightarrow> well_formed c \<Longrightarrow> well_formed c'"
  by (induction events arbitrary: c) (auto intro: well_formed_redraw_event split: sum.splits)

lemma well_formed_sample: "well_formed sample_controller"
  by (simp add: well_formed_def sample_controller_def)


end
